theory Spec2Isabelle
  imports Main "HOL-Library.Sublist"
begin

section \<open>The CSV storage backend of Job-Hunter\<close>

text \<open>
  The module \<^verbatim>\<open>jobspy_v2/storage/csv_backend.py\<close> keeps three record sets in three
  CSV files. Every operation opens one file, reads or writes it, and closes it. A file
  is modelled by its bytes: \<open>None\<close> is a path that does not exist, \<open>Some t\<close> a file whose
  content is \<open>t\<close>. The strings of the program are held as their UTF-8 bytes. The column tuples \<^verbatim>\<open>SENT_EMAIL_COLUMNS\<close>,
  \<^verbatim>\<open>SCRAPED_JOB_COLUMNS\<close> and \<^verbatim>\<open>RUN_STATS_COLUMNS\<close> are imported from
  \<^verbatim>\<open>jobspy_v2.storage.base\<close>; every operation below takes its column list as the
  parameter \<open>columns\<close>.

  The module calls \<^verbatim>\<open>csv.DictWriter\<close> and \<^verbatim>\<open>csv.DictReader\<close> with the default
  dialect (delimiter comma, quote character \<^verbatim>\<open>"\<close>, doubled quotes, minimal quoting,
  line terminator CR LF, not strict). Both are modelled on the text, the reader as the
  state machine of the \<^verbatim>\<open>csv\<close> module fed with the lines of the file. Reading the
  records of a file raises when its bytes are no UTF-8 and when a field has more
  characters than the reader's field size limit; which of the two a file with both
  defects raises depends on how the file is buffered, and the model has the one error
  \<open>ReadError\<close> for both. Errors of the operating system are outside the model.
\<close>

subsection \<open>Values, records and diagnostics\<close>

datatype py_error = ReadError | IndexError

datatype pyval = Str string | PyNone

text \<open>
  A record is a Python \<^verbatim>\<open>dict\<close>. Its string keys map to a string or to \<^verbatim>\<open>None\<close> (the
  reader's \<^verbatim>\<open>restval\<close> for a short row); the key \<^verbatim>\<open>None\<close> (the reader's
  \<^verbatim>\<open>restkey\<close>) holds the surplus fields of a long row.
\<close>

datatype pydict = Dict (cells: "string \<Rightarrow> pyval option") (restkey: "string list option")

datatype log_level = DEBUG | INFO | WARNING

definition dict_get :: "pydict \<Rightarrow> string \<Rightarrow> pyval \<Rightarrow> pyval" where
  "dict_get d k dflt = (case cells d k of None \<Rightarrow> dflt | Some v \<Rightarrow> v)"

definition dict_set :: "pydict \<Rightarrow> string \<Rightarrow> pyval \<Rightarrow> pydict" where
  "dict_set d k v = Dict ((cells d)(k \<mapsto> v)) (restkey d)"

text \<open>\<^verbatim>\<open>dict(pairs)\<close>: a later pair overrides an earlier one with the same key.\<close>

definition py_dict :: "(string \<times> pyval) list \<Rightarrow> string \<Rightarrow> pyval option" where
  "py_dict kvs = map_of (rev kvs)"

text \<open>
  \<^verbatim>\<open>rows[i]\<close> on a list: a negative index counts from the end, an index out of
  range raises \<^verbatim>\<open>IndexError\<close>.
\<close>

definition list_index :: "'a list \<Rightarrow> int \<Rightarrow> py_error + nat" where
  "list_index xs i =
     (let n = int (length xs); j = (if i < 0 then i + n else i)
      in if 0 \<le> j \<and> j < n then Inr (nat j) else Inl IndexError)"

text \<open>\<^verbatim>\<open>rows[i][k] = v\<close>\<close>

definition rows_setitem :: "pydict list \<Rightarrow> int \<Rightarrow> string \<Rightarrow> pyval \<Rightarrow> py_error + pydict list" where
  "rows_setitem rows i k v =
     (case list_index rows i of
        Inl e \<Rightarrow> Inl e
      | Inr j \<Rightarrow> Inr (rows[j := dict_set (rows ! j) k v]))"

subsection \<open>Decimal text of integers and ISO dates\<close>

definition digit_char :: "nat \<Rightarrow> char" where
  "digit_char d = char_of (48 + d)"

function str_nat :: "nat \<Rightarrow> string" where
  "str_nat n = (if n < 10 then [digit_char n] else str_nat (n div 10) @ [digit_char (n mod 10)])"
  by pat_completeness auto
termination
  by (relation "measure id") auto

declare str_nat.simps [simp del]

text \<open>\<^verbatim>\<open>str(i)\<close> for an integer.\<close>

definition py_str :: "int \<Rightarrow> string" where
  "py_str i = (if i < 0 then CHR ''-'' # str_nat (nat (- i)) else str_nat (nat i))"

datatype date = Date (year: nat) (month: nat) (day: nat)

definition zero_pad :: "nat \<Rightarrow> string \<Rightarrow> string" where
  "zero_pad w s = replicate (w - length s) CHR ''0'' @ s"

text \<open>\<^verbatim>\<open>date.isoformat()\<close>: \<^verbatim>\<open>YYYY-MM-DD\<close>.\<close>

definition isoformat :: "date \<Rightarrow> string" where
  "isoformat d =
     zero_pad 4 (str_nat (year d)) @ ''-'' @ zero_pad 2 (str_nat (month d)) @ ''-''
       @ zero_pad 2 (str_nat (day d))"

subsection \<open>The lines of a text file\<close>

text \<open>
  Iterating over a file opened in text mode yields its lines; a line ends after LF,
  after CR LF, or after a CR that no LF follows, and keeps its ending when the file is
  opened with \<^verbatim>\<open>newline=""\<close>. The last line may lack an ending. \<open>cur\<close> is the part of
  the current line already seen.
\<close>

fun readlines :: "string \<Rightarrow> string \<Rightarrow> string list" where
  "readlines cur [] = (if cur = [] then [] else [cur])"
| "readlines cur (c # cs) =
     (if c = CHR 0x0A then (cur @ [c]) # readlines [] cs
      else if c = CHR 0x0D then
        (case cs of
           [] \<Rightarrow> [cur @ [c]]
         | d # ds \<Rightarrow> if d = CHR 0x0A then (cur @ [c, d]) # readlines [] ds
                     else (cur @ [c]) # readlines [] cs)
      else readlines (cur @ [c]) cs)"

text \<open>\<^verbatim>\<open>sum(1 for _ in f)\<close>: the number of lines. Translating the line endings, as the
  default text mode does, does not change it.\<close>

definition count_lines :: "string \<Rightarrow> int" where
  "count_lines t = int (length (readlines [] t))"

subsection \<open>The CSV writer\<close>

definition is_newline :: "char \<Rightarrow> bool" where
  "is_newline c = (c = CHR 0x0A \<or> c = CHR 0x0D)"

definition needs_quotes :: "string \<Rightarrow> bool" where
  "needs_quotes s = (\<exists>c \<in> set s. c = CHR '','' \<or> c = CHR 0x22 \<or> is_newline c)"

fun escape_quotes :: "string \<Rightarrow> string" where
  "escape_quotes [] = []"
| "escape_quotes (c # cs) =
     (if c = CHR 0x22 then c # c # escape_quotes cs else c # escape_quotes cs)"

text \<open>One field: quoted when it holds a delimiter, a quote or a line break.\<close>

definition join_append :: "string \<Rightarrow> string" where
  "join_append s = (if needs_quotes s then CHR 0x22 # escape_quotes s @ [CHR 0x22] else s)"

fun join_fields :: "string list \<Rightarrow> string" where
  "join_fields [] = []"
| "join_fields [f] = join_append f"
| "join_fields (f # fs) = join_append f @ CHR '','' # join_fields fs"

definition lineterminator :: string where
  "lineterminator = [CHR 0x0D, CHR 0x0A]"

text \<open>\<^verbatim>\<open>writer.writerow\<close>: a row whose only field is empty is written as two quotes.\<close>

definition writerow :: "string list \<Rightarrow> string" where
  "writerow fs = (if fs = [[]] then [CHR 0x22, CHR 0x22] else join_fields fs) @ lineterminator"

definition csv_text :: "string list list \<Rightarrow> string" where
  "csv_text rs = concat (map writerow rs)"

text \<open>
  \<^verbatim>\<open>DictWriter\<close> with \<^verbatim>\<open>extrasaction="ignore"\<close>: the row holds, for each field name
  in order, the record's value or the empty string when the key is missing; the keys
  that are no field names are not looked at. \<^verbatim>\<open>None\<close> is written as the empty string.
\<close>

definition dict_to_list :: "string list \<Rightarrow> pydict \<Rightarrow> pyval list" where
  "dict_to_list fieldnames d = map (\<lambda>k. dict_get d k (Str [])) fieldnames"

definition field_text :: "pyval \<Rightarrow> string" where
  "field_text v = (case v of Str s \<Rightarrow> s | PyNone \<Rightarrow> [])"

definition dict_writerow :: "string list \<Rightarrow> pydict \<Rightarrow> string" where
  "dict_writerow fieldnames d = writerow (map field_text (dict_to_list fieldnames d))"

definition dict_writerows :: "string list \<Rightarrow> pydict list \<Rightarrow> string" where
  "dict_writerows fieldnames ds = concat (map (dict_writerow fieldnames) ds)"

text \<open>\<^verbatim>\<open>writeheader\<close> writes the record that maps each field name to itself. It has no
  key outside the field names, so the default \<^verbatim>\<open>extrasaction="raise"\<close> of the writer
  that \<^verbatim>\<open>_ensure_csv\<close> builds does not raise.\<close>

definition writeheader :: "string list \<Rightarrow> string" where
  "writeheader fieldnames =
     dict_writerow fieldnames (Dict (py_dict (zip fieldnames (map Str fieldnames))) None)"

subsection \<open>The CSV reader\<close>

datatype parse_state = START_RECORD | START_FIELD | IN_FIELD | IN_QUOTED_FIELD
  | QUOTE_IN_QUOTED_FIELD | EAT_CRNL

datatype reader = Reader (state: parse_state) (field: string) (fields: "string list")

definition parse_reset :: reader where
  "parse_reset = Reader START_RECORD [] []"

definition parse_save_field :: "reader \<Rightarrow> parse_state \<Rightarrow> reader" where
  "parse_save_field r s = Reader s [] (fields r @ [field r])"

text \<open>
  \<^verbatim>\<open>csv.field_size_limit()\<close>, by default 131072. The reader counts the characters of
  the field it is in and refuses to add one to a field that has reached the limit. A
  character is one or more bytes here: a byte \<^verbatim>\<open>10xxxxxx\<close> continues the character
  before it and is not counted.
\<close>

definition field_size_limit :: int where
  "field_size_limit = 131072"

definition byte :: "char \<Rightarrow> nat" where
  "byte c = of_char c"

definition is_continuation :: "char \<Rightarrow> bool" where
  "is_continuation c = (128 \<le> byte c \<and> byte c < 192)"

definition field_len :: "string \<Rightarrow> int" where
  "field_len s = int (length (filter (\<lambda>c. \<not> is_continuation c) s))"

definition parse_add_char :: "reader \<Rightarrow> char \<Rightarrow> parse_state \<Rightarrow> py_error + reader" where
  "parse_add_char r c s =
     (if \<not> is_continuation c \<and> field_size_limit \<le> field_len (field r) then Inl ReadError
      else Inr (Reader s (field r @ [c]) (fields r)))"

definition start_field :: "reader \<Rightarrow> char \<Rightarrow> py_error + reader" where
  "start_field r c =
     (if is_newline c then Inr (parse_save_field r EAT_CRNL)
      else if c = CHR 0x22 then Inr (Reader IN_QUOTED_FIELD (field r) (fields r))
      else if c = CHR '','' then Inr (parse_save_field r START_FIELD)
      else parse_add_char r c IN_FIELD)"

text \<open>One character of a line. The reader raises when a field grows beyond the limit,
  and on a character other than a line break after the line break of a record.\<close>

definition parse_process_char :: "reader \<Rightarrow> char \<Rightarrow> py_error + reader" where
  "parse_process_char r c =
     (case state r of
        START_RECORD \<Rightarrow>
          if is_newline c then Inr (Reader EAT_CRNL (field r) (fields r))
          else start_field r c
      | START_FIELD \<Rightarrow> start_field r c
      | IN_FIELD \<Rightarrow>
          if is_newline c then Inr (parse_save_field r EAT_CRNL)
          else if c = CHR '','' then Inr (parse_save_field r START_FIELD)
          else parse_add_char r c IN_FIELD
      | IN_QUOTED_FIELD \<Rightarrow>
          if c = CHR 0x22 then Inr (Reader QUOTE_IN_QUOTED_FIELD (field r) (fields r))
          else parse_add_char r c IN_QUOTED_FIELD
      | QUOTE_IN_QUOTED_FIELD \<Rightarrow>
          if c = CHR 0x22 then parse_add_char r c IN_QUOTED_FIELD
          else if c = CHR '','' then Inr (parse_save_field r START_FIELD)
          else if is_newline c then Inr (parse_save_field r EAT_CRNL)
          else parse_add_char r c IN_FIELD
      | EAT_CRNL \<Rightarrow>
          if is_newline c then Inr r else Inl ReadError)"

text \<open>The end of a line.\<close>

definition parse_process_eol :: "reader \<Rightarrow> reader" where
  "parse_process_eol r =
     (case state r of
        START_RECORD \<Rightarrow> r
      | START_FIELD \<Rightarrow> parse_save_field r START_RECORD
      | IN_FIELD \<Rightarrow> parse_save_field r START_RECORD
      | IN_QUOTED_FIELD \<Rightarrow> r
      | QUOTE_IN_QUOTED_FIELD \<Rightarrow> parse_save_field r START_RECORD
      | EAT_CRNL \<Rightarrow> Reader START_RECORD (field r) (fields r))"

fun parse_line :: "reader \<Rightarrow> string \<Rightarrow> py_error + reader" where
  "parse_line r [] = Inr (parse_process_eol r)"
| "parse_line r (c # cs) =
     (case parse_process_char r c of Inl e \<Rightarrow> Inl e | Inr r' \<Rightarrow> parse_line r' cs)"

text \<open>
  The records of a list of lines. A record is complete when a line leaves the reader
  at the start of a record; a quoted field may span lines. When the lines run out
  inside a record, what was read of it is the last record.
\<close>

fun reader_rows :: "reader \<Rightarrow> string list \<Rightarrow> py_error + string list list" where
  "reader_rows r [] =
     (if field r \<noteq> [] \<or> state r = IN_QUOTED_FIELD then Inr [fields r @ [field r]] else Inr [])"
| "reader_rows r (l # ls) =
     (case parse_line r l of
        Inl e \<Rightarrow> Inl e
      | Inr r' \<Rightarrow>
          if state r' = START_RECORD
          then (case reader_rows parse_reset ls of
                  Inl e \<Rightarrow> Inl e
                | Inr rs \<Rightarrow> Inr (fields r' # rs))
          else reader_rows r' ls)"

definition csv_parse :: "string \<Rightarrow> py_error + string list list" where
  "csv_parse t = reader_rows parse_reset (readlines [] t)"

text \<open>
  \<^verbatim>\<open>DictReader\<close> without field names: the first record of the file names the fields.
  A record is paired with the names by position; a short record gets \<^verbatim>\<open>None\<close> for the
  names it lacks, the surplus of a long record goes under the key \<^verbatim>\<open>None\<close>. Records
  without any field (blank lines) are skipped.
\<close>

definition dict_row :: "string list \<Rightarrow> string list \<Rightarrow> pydict" where
  "dict_row fieldnames row =
     Dict (py_dict (zip fieldnames (map Str row)
                    @ map (\<lambda>k. (k, PyNone)) (drop (length row) fieldnames)))
          (if length fieldnames < length row then Some (drop (length fieldnames) row) else None)"

definition dict_reader :: "string \<Rightarrow> py_error + pydict list" where
  "dict_reader t =
     (case csv_parse t of
        Inl e \<Rightarrow> Inl e
      | Inr [] \<Rightarrow> Inr []
      | Inr (fieldnames # rs) \<Rightarrow> Inr (map (dict_row fieldnames) (filter (\<lambda>r. r \<noteq> []) rs)))"

text \<open>The header and the data rows of a file, as the reader sees them.\<close>

definition csv_rows :: "string \<Rightarrow> string list list" where
  "csv_rows t = (case csv_parse t of Inl e \<Rightarrow> [] | Inr rs \<Rightarrow> rs)"

definition data_rows :: "string \<Rightarrow> string list list" where
  "data_rows t = filter (\<lambda>r. r \<noteq> []) (tl (csv_rows t))"

definition header_row :: "string \<Rightarrow> string list" where
  "header_row t = (case csv_rows t of [] \<Rightarrow> [] | h # rs \<Rightarrow> h)"

text \<open>The records \<^verbatim>\<open>DictReader\<close> makes of the rows of a file.\<close>

definition file_records :: "string \<Rightarrow> pydict list" where
  "file_records t = map (dict_row (header_row t)) (data_rows t)"

subsection \<open>Decoding\<close>

text \<open>
  Opening a file with \<^verbatim>\<open>encoding="utf-8"\<close> decodes its bytes strictly: one byte
  below 128, or a lead byte \<^verbatim>\<open>C2\<close> to \<^verbatim>\<open>F4\<close> with its one to three continuation bytes,
  without overlong forms, surrogates or values above \<^verbatim>\<open>10FFFF\<close>.
\<close>

definition second_of_three :: "char \<Rightarrow> char \<Rightarrow> bool" where
  "second_of_three a b =
     (if byte a = 224 then 160 \<le> byte b \<and> byte b < 192
      else if byte a = 237 then 128 \<le> byte b \<and> byte b < 160
      else is_continuation b)"

definition second_of_four :: "char \<Rightarrow> char \<Rightarrow> bool" where
  "second_of_four a b =
     (if byte a = 240 then 144 \<le> byte b \<and> byte b < 192
      else if byte a = 244 then 128 \<le> byte b \<and> byte b < 144
      else is_continuation b)"

fun valid_utf8 :: "string \<Rightarrow> bool" where
  "valid_utf8 [] = True"
| "valid_utf8 (a # bs) =
     (if byte a < 128 then valid_utf8 bs
      else if 194 \<le> byte a \<and> byte a < 224 then
        (case bs of b # r \<Rightarrow> is_continuation b \<and> valid_utf8 r | _ \<Rightarrow> False)
      else if 224 \<le> byte a \<and> byte a < 240 then
        (case bs of
           b # c # r \<Rightarrow> second_of_three a b \<and> is_continuation c \<and> valid_utf8 r
         | _ \<Rightarrow> False)
      else if 240 \<le> byte a \<and> byte a < 245 then
        (case bs of
           b # c # d # r \<Rightarrow>
             second_of_four a b \<and> is_continuation c \<and> is_continuation d \<and> valid_utf8 r
         | _ \<Rightarrow> False)
      else False)"

text \<open>A file whose records can be read: it decodes, and the reader accepts it.\<close>

definition readable :: "string \<Rightarrow> bool" where
  "readable t =
     (valid_utf8 t \<and> (case csv_parse t of Inl e \<Rightarrow> False | Inr rs \<Rightarrow> True))"

subsection \<open>The storage operations\<close>

text \<open>
  Every operation takes the file it works on and returns the file's text after the
  call together with the diagnostics it logged, in order. An operation that reads the
  records of the file returns \<open>Inl\<close> when the call raises; the file then is as it was
  after \<^verbatim>\<open>_ensure_csv\<close>, since the read comes before any write.
\<close>

text \<open>\<^verbatim>\<open>_ensure_csv\<close>: a file that exists is left alone; a missing one is created
  with the header only.\<close>

definition ensure_csv :: "string list \<Rightarrow> string option \<Rightarrow> string \<times> log_level list" where
  "ensure_csv columns f =
     (case f of Some t \<Rightarrow> (t, []) | None \<Rightarrow> (writeheader columns, [INFO]))"

definition read_csv ::
  "string list \<Rightarrow> string option \<Rightarrow> py_error + (string \<times> log_level list \<times> pydict list)" where
  "read_csv columns f =
     (let (t, lg) = ensure_csv columns f
      in if valid_utf8 t
         then (case dict_reader t of Inl e \<Rightarrow> Inl e | Inr rows \<Rightarrow> Inr (t, lg, rows))
         else Inl ReadError)"

text \<open>\<^verbatim>\<open>_append_rows\<close> returns the text, the diagnostics and \<^verbatim>\<open>start_row\<close>.\<close>

definition append_rows ::
  "string list \<Rightarrow> pydict list \<Rightarrow> string option \<Rightarrow> string \<times> log_level list \<times> int" where
  "append_rows columns rows f =
     (let (t, lg) = ensure_csv columns f;
          existing_lines = count_lines t;
          start_row = existing_lines + 1
      in (t @ dict_writerows columns rows, lg, start_row))"

definition get_sent_emails ::
  "string list \<Rightarrow> string option \<Rightarrow> py_error + (string \<times> log_level list \<times> pydict list)" where
  "get_sent_emails sent_email_columns f = read_csv sent_email_columns f"

definition add_sent_email ::
  "string list \<Rightarrow> pydict \<Rightarrow> string option \<Rightarrow> string \<times> log_level list" where
  "add_sent_email sent_email_columns record f =
     (let (t, lg, start_row) = append_rows sent_email_columns [record] f in (t, lg @ [DEBUG]))"





definition update_scraped_job_status ::
  "string list \<Rightarrow> int \<Rightarrow> string \<Rightarrow> string \<Rightarrow> string \<Rightarrow> string option
     \<Rightarrow> py_error + (string \<times> log_level list)" where
  "update_scraped_job_status columns row_number email_sent skip_reason email_recipient f =
     (let (t0, lg0) = ensure_csv columns f
      in case read_csv columns (Some t0) of
           Inl e \<Rightarrow> Inl e
         | Inr (t, lg, rows) \<Rightarrow>
             (let data_index = row_number - 2
              in if 0 \<le> data_index \<and> data_index < int (length rows) then
                   (case rows_setitem rows data_index ''email_sent'' (Str email_sent) of
                      Inl e \<Rightarrow> Inl e
                    | Inr rows1 \<Rightarrow>
                   (case rows_setitem rows1 data_index ''skip_reason'' (Str skip_reason) of
                      Inl e \<Rightarrow> Inl e
                    | Inr rows2 \<Rightarrow>
                   (case rows_setitem rows2 data_index ''email_recipient'' (Str email_recipient) of
                      Inl e \<Rightarrow> Inl e
                    | Inr rows3 \<Rightarrow>
                        Inr (writeheader columns @ dict_writerows columns rows3,
                             lg0 @ lg @ [DEBUG]))))
                 else Inr (t, lg0 @ lg @ [WARNING])))"

text \<open>The loop of \<^verbatim>\<open>get_pending_jobs\<close>; \<open>i\<close> is the index of the first job of the list.\<close>

fun pending_from :: "int \<Rightarrow> pydict list \<Rightarrow> pydict list" where
  "pending_from i [] = []"
| "pending_from i (job # jobs) =
     (if dict_get job ''email_sent'' (Str []) = Str ''Pending''
      then dict_set job ''row_number'' (Str (py_str (i + 2))) # pending_from (i + 1) jobs
      else pending_from (i + 1) jobs)"

definition get_pending_jobs ::
  "string list \<Rightarrow> string option \<Rightarrow> py_error + (string \<times> log_level list \<times> pydict list)" where
  "get_pending_jobs columns f =
     (case read_csv columns f of
        Inl e \<Rightarrow> Inl e
      | Inr (t, lg, all_jobs) \<Rightarrow> Inr (t, lg, pending_from 0 all_jobs))"

definition get_run_stats ::
  "string list \<Rightarrow> string option \<Rightarrow> py_error + (string \<times> log_level list \<times> pydict list)" where
  "get_run_stats run_stats_columns f = read_csv run_stats_columns f"

definition add_run_stats ::
  "string list \<Rightarrow> pydict \<Rightarrow> string option \<Rightarrow> string \<times> log_level list" where
  "add_run_stats run_stats_columns stats f =
     (let (t, lg, start_row) = append_rows run_stats_columns [stats] f in (t, lg @ [INFO]))"

text \<open>\<^verbatim>\<open>date_sent and date_sent.startswith(today_str)\<close>: \<^verbatim>\<open>None\<close> and the empty
  string are false, and \<^verbatim>\<open>and\<close> does not evaluate its right side then.\<close>

definition sent_today :: "string \<Rightarrow> pydict \<Rightarrow> bool" where
  "sent_today today_str record =
     (case dict_get record ''date_sent'' (Str []) of
        PyNone \<Rightarrow> False
      | Str date_sent \<Rightarrow> date_sent \<noteq> [] \<and> prefix today_str date_sent)"

fun count_today :: "string \<Rightarrow> int \<Rightarrow> pydict list \<Rightarrow> int" where
  "count_today today_str count [] = count"
| "count_today today_str count (record # records) =
     (if sent_today today_str record then count_today today_str (count + 1) records
      else count_today today_str count records)"

text \<open>The clock is read once; \<open>today\<close> is the date it gives.\<close>

definition get_today_sent_emails_count ::
  "string list \<Rightarrow> date \<Rightarrow> string option \<Rightarrow> py_error + (string \<times> log_level list \<times> int)" where
  "get_today_sent_emails_count sent_email_columns today f =
     (case read_csv sent_email_columns f of
        Inl e \<Rightarrow> Inl e
      | Inr (t, lg, all_emails) \<Rightarrow> Inr (t, lg, count_today (isoformat today) 0 all_emails))"

subsection \<open>The reader, character by character\<close>

text \<open>
  For the proofs the reader is also run directly on the text: \<open>feed\<close> handles one
  character at a time and ends the line where \<open>readlines\<close> would; \<open>pend\<close> says that
  the current line has characters.
\<close>

fun parse_chars :: "reader \<Rightarrow> string \<Rightarrow> py_error + reader" where
  "parse_chars r [] = Inr r"
| "parse_chars r (c # cs) =
     (case parse_process_char r c of Inl e \<Rightarrow> Inl e | Inr r' \<Rightarrow> parse_chars r' cs)"

definition line_ends :: "char \<Rightarrow> string \<Rightarrow> bool" where
  "line_ends c cs =
     (c = CHR 0x0A \<or> (c = CHR 0x0D \<and> (case cs of [] \<Rightarrow> True | d # _ \<Rightarrow> d \<noteq> CHR 0x0A)))"

definition flush :: "reader \<Rightarrow> py_error + string list list" where
  "flush r =
     (if field r \<noteq> [] \<or> state r = IN_QUOTED_FIELD then Inr [fields r @ [field r]] else Inr [])"

fun feed :: "reader \<Rightarrow> bool \<Rightarrow> string \<Rightarrow> py_error + string list list" where
  "feed r pend [] =
     (if pend then
        (let r' = parse_process_eol r in
         if state r' = START_RECORD then Inr [fields r'] else flush r')
      else flush r)"
| "feed r pend (c # cs) =
     (case parse_process_char r c of
        Inl e \<Rightarrow> Inl e
      | Inr r1 \<Rightarrow>
          if line_ends c cs then
            (let r' = parse_process_eol r1 in
             if state r' = START_RECORD
             then (case feed parse_reset False cs of
                     Inl e \<Rightarrow> Inl e
                   | Inr rs \<Rightarrow> Inr (fields r' # rs))
             else feed r' False cs)
          else feed r1 True cs)"

subsection \<open>Example files\<close>

text \<open>A job schema with the four columns the backend itself names, and a job file
  with two rows as \<^verbatim>\<open>add_scraped_jobs\<close> writes them.\<close>

definition example_columns :: "string list" where
  "example_columns = [''title'', ''row_number'', ''email_sent'', ''skip_reason'', ''email_recipient'']"

definition example_jobs :: string where
  "example_jobs =
     csv_text [example_columns,
               [''Dev'', ''2'', ''Pending'', [], []],
               [''Ops'', ''3'', ''Sent'', [], ''hr@example.org'']]"

text \<open>A job file whose stored row numbers are stale or missing.\<close>

definition example_stale_jobs :: string where
  "example_stale_jobs =
     csv_text [example_columns,
               [''Dev'', ''7'', ''Pending'', [], []],
               [''Ops'', ''3'', ''Sent'', [], ''hr@example.org''],
               [''QA'', [], ''Pending'', [], []]]"

text \<open>A sent-email schema and a file with four rows.\<close>

definition example_sent_columns :: "string list" where
  "example_sent_columns = [''email'', ''date_sent'']"

definition example_sent :: string where
  "example_sent =
     csv_text [example_sent_columns,
               [''a@example.org'', ''2024-01-02''],
               [''b@example.org'', ''2024-01-02T09:00:00''],
               [''c@example.org'', ''2024-01-01''],
               [''d@example.org'', []]]"

subsection \<open>The filters as the specification words them\<close>

text \<open>A record whose \<^verbatim>\<open>date_sent\<close> field is a string that starts with the given date.\<close>

definition date_sent_starts_with :: "string \<Rightarrow> pydict \<Rightarrow> bool" where
  "date_sent_starts_with today_str d =
     (case cells d ''date_sent'' of Some (Str s) \<Rightarrow> prefix today_str s | _ \<Rightarrow> False)"

text \<open>A record whose \<^verbatim>\<open>email_sent\<close> field is the string \<^verbatim>\<open>Pending\<close>.\<close>

definition is_pending :: "pydict \<Rightarrow> bool" where
  "is_pending d = (cells d ''email_sent'' = Some (Str ''Pending''))"




definition example_email :: pydict where
  "example_email =
     Dict (py_dict [(''email'', Str ''a@example.org''), (''date_sent'', Str ''2024-01-02'')]) None"

text \<open>A text without a line break.\<close>

definition single_line :: "string \<Rightarrow> bool" where
  "single_line s = list_all (\<lambda>c. \<not> is_newline c) s"

text \<open>The fields that \<^verbatim>\<open>DictWriter\<close> writes for a record.\<close>

definition written_fields :: "string list \<Rightarrow> pydict \<Rightarrow> string list" where
  "written_fields columns d = map field_text (dict_to_list columns d)"

text \<open>A field of one character more than the reader accepts, and files that hold it.\<close>

definition oversize_field :: string where
  "oversize_field = replicate (nat field_size_limit) (CHR ''a'') @ ''a''"

definition oversize_jobs :: string where
  "oversize_jobs =
     csv_text [example_columns] @ writerow [oversize_field, ''2'', ''Pending'', [], []]"

definition oversize_sent :: string where
  "oversize_sent =
     csv_text [example_sent_columns] @ writerow [oversize_field, ''2024-01-02'']"

text \<open>A job file whose first data row has two fields more than the schema, a file
  under a header that is not the schema's, and a sent email with an oversize value.\<close>

definition example_ragged_jobs :: string where
  "example_ragged_jobs =
     csv_text [example_columns,
               [''Dev'', ''2'', ''Pending'', [], [], ''extra1'', ''extra2''],
               [''Ops'', ''3'', ''Pending'', [], []]]"

definition example_foreign_jobs :: string where
  "example_foreign_jobs =
     csv_text [[''title'', ''email_sent''], [''Dev'', ''Pending''], [''Ops'', ''Pending'']]"

definition oversize_email :: pydict where
  "oversize_email =
     Dict (py_dict [(''email'', Str oversize_field), (''date_sent'', Str ''2024-01-02'')]) None"

subsection \<open>The rows of a file as the specification words them\<close>

text \<open>The values of a row in the schema's columns: position by position, the empty string
  where the row is short, nothing of what the row has beyond the schema.\<close>

definition schema_fields :: "string list \<Rightarrow> string list \<Rightarrow> string list" where
  "schema_fields columns row =
     take (length columns) row @ replicate (length columns - length row) []"

text \<open>The same row with the three status columns set, where the schema has them.\<close>

definition status_fields ::
  "string list \<Rightarrow> string list \<Rightarrow> string \<Rightarrow> string \<Rightarrow> string \<Rightarrow> string list" where
  "status_fields columns row email_sent skip_reason email_recipient =
     map (\<lambda>(c, v). if c = ''email_sent'' then email_sent
                    else if c = ''skip_reason'' then skip_reason
                    else if c = ''email_recipient'' then email_recipient
                    else v)
         (zip columns (schema_fields columns row))"

text \<open>A string that the store can hold in a field and read back: UTF-8 text of at most
  as many characters as the reader's limit.\<close>

definition text_field :: "string \<Rightarrow> bool" where
  "text_field s = (valid_utf8 s \<and> field_len s \<le> field_size_limit)"

section \<open>Properties of the reader\<close>

lemma parse_line_chars:
  "parse_line r l = (case parse_chars r l of Inl e \<Rightarrow> Inl e | Inr r' \<Rightarrow> Inr (parse_process_eol r'))"
  by (induction l arbitrary: r) (auto split: sum.splits)

lemma parse_chars_append:
  "parse_chars r (xs @ ys) = (case parse_chars r xs of Inl e \<Rightarrow> Inl e | Inr r' \<Rightarrow> parse_chars r' ys)"
  by (induction xs arbitrary: r) (auto split: sum.splits)

lemma reader_rows_Nil: "reader_rows r [] = flush r"
  by (simp add: flush_def)

lemma lines_feed:
  "reader_rows r (readlines cur t) =
     (case parse_chars r cur of Inl e \<Rightarrow> Inl e | Inr q \<Rightarrow> feed q (cur \<noteq> []) t)"
proof (induction cur t arbitrary: r rule: readlines.induct)
  case (1 cur)
  then show ?case
    by (auto simp: parse_line_chars flush_def parse_reset_def Let_def split: sum.splits)
next
  case (2 cur c cs)
  show ?case
  proof (cases "c = CHR 0x0A")
    case True
    have ih: "\<And>r. reader_rows r (readlines [] cs) = feed r False cs"
      using 2(1)[OF True] by simp
    show ?thesis using True
      by (simp add: ih parse_line_chars parse_chars_append line_ends_def Let_def split: sum.splits)
  next
    case nl: False
    show ?thesis
    proof (cases "c = CHR 0x0D")
      case cr: True
      show ?thesis
      proof (cases cs)
        case Nil
        then show ?thesis using nl cr
          by (simp add: parse_line_chars parse_chars_append line_ends_def Let_def flush_def parse_reset_def split: sum.splits)
      next
        case (Cons d ds)
        show ?thesis
        proof (cases "d = CHR 0x0A")
          case True
          have ih: "\<And>r. reader_rows r (readlines [] ds) = feed r False ds"
            using 2(2)[OF nl cr Cons True] by simp
          show ?thesis using nl cr Cons True
            by (simp add: ih parse_line_chars parse_chars_append line_ends_def Let_def split: sum.splits)
        next
          case False
          have ih: "\<And>r. reader_rows r (readlines [] cs) = feed r False cs"
            using 2(3)[OF nl cr Cons False] by simp
          have step: "readlines cur (c # cs) = (cur @ [c]) # readlines [] cs"
            using nl cr Cons False by simp
          have le: "line_ends c cs"
            using cr Cons False by (simp add: line_ends_def)
          show ?thesis
            by (simp add: step le ih parse_line_chars parse_chars_append Let_def
                  del: readlines.simps split: sum.splits)
        qed
      qed
    next
      case False
      have ih: "reader_rows r' (readlines (cur @ [c]) cs) =
         (case parse_chars r' (cur @ [c]) of Inl e \<Rightarrow> Inl e | Inr q \<Rightarrow> feed q True cs)" for r'
        using 2(4)[OF nl False, of r'] by (simp split: sum.splits)
      show ?thesis using nl False
        by (simp add: ih parse_chars_append line_ends_def split: sum.splits)
    qed
  qed
qed

section \<open>The writer and the lines of its text\<close>

lemma zip_map_self: "zip xs (map f xs) = map (\<lambda>x. (x, f x)) xs"
  by (induction xs) simp_all

lemma py_dict_self:
  "py_dict (zip ks (map f ks)) k = (if k \<in> set ks then Some (f k) else None)"
proof -
  have "rev (zip ks (map f ks)) = map (\<lambda>x. (x, f x)) (rev ks)"
    by (simp add: zip_map_self rev_map)
  then show ?thesis
    by (simp add: py_dict_def map_of_map_restrict restrict_map_def)
qed

lemma writeheader_writerow: "writeheader columns = writerow columns"
proof -
  have "map field_text (dict_to_list columns (Dict (py_dict (zip columns (map Str columns))) None))
          = columns"
    by (simp add: dict_to_list_def dict_get_def py_dict_self field_text_def comp_def
             cong: map_cong)
  then show ?thesis by (simp add: writeheader_def dict_writerow_def)
qed

lemma dict_writerow_fields: "dict_writerow columns d = writerow (written_fields columns d)"
  by (simp add: dict_writerow_def written_fields_def)

lemma dict_writerows_text:
  "dict_writerows columns ds = csv_text (map (written_fields columns) ds)"
  by (induction ds) (simp_all add: dict_writerows_def csv_text_def dict_writerow_fields)

lemma csv_text_append: "csv_text (rs @ rs') = csv_text rs @ csv_text rs'"
  by (simp add: csv_text_def)

lemma csv_text_Cons: "csv_text (r # rs) = writerow r @ csv_text rs"
  by (simp add: csv_text_def)

lemma escape_quotes_single_line: "single_line s \<Longrightarrow> single_line (escape_quotes s)"
  by (induction s) (auto simp: single_line_def is_newline_def)

lemma join_append_single_line: "single_line s \<Longrightarrow> single_line (join_append s)"
  using escape_quotes_single_line[of s]
  by (auto simp: join_append_def single_line_def is_newline_def)

lemma join_fields_single_line:
  "list_all single_line fs \<Longrightarrow> single_line (join_fields fs)"
proof (induction fs rule: join_fields.induct)
  case 1
  then show ?case by (simp add: single_line_def)
next
  case (2 f)
  then show ?case by (simp add: join_append_single_line)
next
  case (3 f g gs)
  then show ?case
    using join_append_single_line[of f]
    by (simp add: single_line_def is_newline_def)
qed

lemma readlines_single_line:
  "single_line s \<Longrightarrow>
     readlines cur (s @ CHR 0x0D # CHR 0x0A # u) = (cur @ s @ [CHR 0x0D, CHR 0x0A]) # readlines [] u"
  by (induction s arbitrary: cur) (simp_all add: single_line_def is_newline_def)

lemma readlines_writerow:
  assumes "list_all single_line fs"
  shows "readlines [] (writerow fs @ u) = writerow fs # readlines [] u"
proof -
  have "single_line (if fs = [[]] then [CHR 0x22, CHR 0x22] else join_fields fs)"
    using join_fields_single_line[OF assms] by (simp add: single_line_def is_newline_def)
  then show ?thesis
    using readlines_single_line[of "if fs = [[]] then [CHR 0x22, CHR 0x22] else join_fields fs" "[]" u]
    by (simp add: writerow_def lineterminator_def)
qed

lemma count_lines_writerow:
  "list_all single_line fs \<Longrightarrow> count_lines (writerow fs @ u) = 1 + count_lines u"
  by (simp add: count_lines_def readlines_writerow)

lemma count_lines_csv_text:
  "list_all (list_all single_line) rs \<Longrightarrow> count_lines (csv_text rs @ u) = int (length rs) + count_lines u"
  by (induction rs) (simp_all add: csv_text_def count_lines_writerow)

lemma count_lines_header:
  "list_all single_line columns \<Longrightarrow> count_lines (writeheader columns) = 1"
  using count_lines_writerow[of columns "[]"]
  by (simp add: writeheader_writerow count_lines_def)

section \<open>Appending rows\<close>

lemma count_lines_empty: "count_lines [] = 0"
  by (simp add: count_lines_def)

lemma ensure_csv_new:
  "f = None \<or> f = Some (writeheader columns) \<Longrightarrow> fst (ensure_csv columns f) = writeheader columns"
  by (auto simp: ensure_csv_def)

lemma append_rows_text:
  "fst (append_rows columns rows f) = fst (ensure_csv columns f) @ dict_writerows columns rows"
  by (simp add: append_rows_def split: prod.splits)

lemma append_rows_start_row:
  "snd (snd (append_rows columns rows f)) = count_lines (fst (ensure_csv columns f)) + 1"
  by (simp add: append_rows_def split: prod.splits)

lemma count_lines_store:
  assumes "list_all single_line columns"
    and "list_all (\<lambda>d. list_all single_line (written_fields columns d)) rows"
  shows "count_lines (writeheader columns @ dict_writerows columns rows) = 1 + int (length rows)"
proof -
  have "list_all (list_all single_line) (columns # map (written_fields columns) rows)"
    using assms by (simp add: list_all_iff)
  from count_lines_csv_text[OF this, of "[]"] show ?thesis
    by (simp add: csv_text_Cons writeheader_writerow dict_writerows_text count_lines_empty)
qed

text \<open>
  C5, as the code has it. \<^verbatim>\<open>_append_rows\<close> first creates a missing file with its
  header, and the header is line 1: on a missing file and on a file that holds the
  header only the returned start row is 2, for column names without line breaks. The
  file then is the header followed by the rows appended, call after call; when no field
  written holds a line break, the call after \<open>K\<close> rows returns \<open>K + 2\<close>. The start row
  is 1 only on a file that exists and has no content at all.
\<close>

theorem append_rows_start_after_header:
  assumes "list_all single_line columns"
    and "list_all (\<lambda>d. list_all single_line (written_fields columns d)) rows"
    and "f = None \<or> f = Some (writeheader columns)"
  shows "snd (snd (append_rows columns rows f)) = 2
       \<and> fst (append_rows columns rows f) = writeheader columns @ dict_writerows columns rows
       \<and> fst (append_rows columns more (Some (writeheader columns @ dict_writerows columns rows)))
           = writeheader columns @ dict_writerows columns (rows @ more)
       \<and> snd (snd (append_rows columns more (Some (fst (append_rows columns rows f)))))
           = int (length rows) + 2
       \<and> snd (snd (append_rows columns rows (Some []))) = 1"
proof -
  have t: "fst (ensure_csv columns f) = writeheader columns"
    using assms(3) by (rule ensure_csv_new)
  have a: "snd (snd (append_rows columns rows f)) = 2"
    by (simp add: append_rows_start_row t count_lines_header[OF assms(1)])
  have b: "fst (append_rows columns rows f) = writeheader columns @ dict_writerows columns rows"
    by (simp add: append_rows_text t)
  have c: "fst (append_rows columns more (Some (writeheader columns @ dict_writerows columns rows)))
             = writeheader columns @ dict_writerows columns (rows @ more)"
    by (simp add: append_rows_text ensure_csv_def dict_writerows_def)
  have d: "snd (snd (append_rows columns more (Some (fst (append_rows columns rows f)))))
             = int (length rows) + 2"
    by (simp add: append_rows_start_row b ensure_csv_def count_lines_store[OF assms(1,2)])
  have e: "snd (snd (append_rows columns rows (Some []))) = 1"
    by (simp add: append_rows_start_row ensure_csv_def count_lines_empty)
  show ?thesis using a b c d e by blast
qed

theorem append_rows_new_file_counterexample:
  "snd (snd (append_rows example_sent_columns [example_email] None)) = 2
   \<and> snd (snd (append_rows example_sent_columns [example_email] None)) \<noteq> 1"
  by code_simp

theorem append_rows_start_after_header_witness:
  "list_all single_line example_sent_columns
   \<and> list_all (\<lambda>d. list_all single_line (written_fields example_sent_columns d)) [example_email]
   \<and> snd (snd (append_rows example_sent_columns [example_email] None)) = 2
   \<and> snd (snd (append_rows example_sent_columns [example_email]
                  (Some (fst (append_rows example_sent_columns [example_email] None))))) = 3"
proof -
  have h1: "list_all single_line example_sent_columns"
    by code_simp
  have h2: "list_all (\<lambda>d. list_all single_line (written_fields example_sent_columns d)) [example_email]"
    by code_simp
  have h3: "None = None \<or> None = Some (writeheader example_sent_columns)"
    by simp
  note th = append_rows_start_after_header[OF h1 h2 h3, of "[example_email]"]
  have a: "snd (snd (append_rows example_sent_columns [example_email] None)) = 2"
    using th[THEN conjunct1] .
  have d: "snd (snd (append_rows example_sent_columns [example_email]
                  (Some (fst (append_rows example_sent_columns [example_email] None))))) = 3"
    using th[THEN conjunct2, THEN conjunct2, THEN conjunct2, THEN conjunct1] by simp
  show ?thesis
    using h1 h2 a d by blast
qed

section \<open>Reading back what the writer wrote\<close>

lemma field_len_Nil: "field_len [] = 0"
  by (simp add: field_len_def)

lemma field_len_append: "field_len (a @ b) = field_len a + field_len b"
  by (simp add: field_len_def)

lemma field_len_Cons: "field_len (c # s) = (if is_continuation c then 0 else 1) + field_len s"
  by (simp add: field_len_def)

lemma field_len_nonneg: "0 \<le> field_len s"
  by (simp add: field_len_def)

lemma add_char_fits:
  "field_len (f @ c # s) \<le> field_size_limit \<Longrightarrow>
     parse_add_char (Reader st f fs) c st' = Inr (Reader st' (f @ [c]) fs)"
  using field_len_nonneg[of s]
  by (auto simp: parse_add_char_def field_len_append field_len_Cons)

lemma ppc_in_quoted:
  "field_len (f @ c # s) \<le> field_size_limit \<Longrightarrow>
   parse_process_char (Reader IN_QUOTED_FIELD f fs) c =
     (if c = CHR 0x22 then Inr (Reader QUOTE_IN_QUOTED_FIELD f fs)
      else Inr (Reader IN_QUOTED_FIELD (f @ [c]) fs))"
  by (simp add: parse_process_char_def add_char_fits)

lemma ppc_quote_quote:
  "field_len (f @ CHR 0x22 # s) \<le> field_size_limit \<Longrightarrow>
   parse_process_char (Reader QUOTE_IN_QUOTED_FIELD f fs) (CHR 0x22) =
     Inr (Reader IN_QUOTED_FIELD (f @ [CHR 0x22]) fs)"
  by (simp add: parse_process_char_def add_char_fits)

lemma eol_in_quoted:
  "parse_process_eol (Reader IN_QUOTED_FIELD f fs) = Reader IN_QUOTED_FIELD f fs"
  by (simp add: parse_process_eol_def)

lemma line_ends_quote: "\<not> line_ends (CHR 0x22) cs"
  by (simp add: line_ends_def)

lemma feed_quoted:
  "field_len (f0 @ s) \<le> field_size_limit \<Longrightarrow>
   feed (Reader IN_QUOTED_FIELD f0 fs0) pend (escape_quotes s @ CHR 0x22 # rest)
     = feed (Reader QUOTE_IN_QUOTED_FIELD (f0 @ s) fs0) True rest"
proof (induction s arbitrary: f0 pend)
  case Nil
  have "parse_process_char (Reader IN_QUOTED_FIELD f0 fs0) (CHR 0x22)
          = Inr (Reader QUOTE_IN_QUOTED_FIELD f0 fs0)"
    by (simp add: parse_process_char_def)
  then show ?case by (simp add: line_ends_quote)
next
  case (Cons c s)
  have l: "field_len ((f0 @ [c]) @ s) \<le> field_size_limit"
    using Cons.prems by simp
  show ?case
  proof (cases "c = CHR 0x22")
    case True
    have a: "parse_process_char (Reader IN_QUOTED_FIELD f0 fs0) (CHR 0x22)
          = Inr (Reader QUOTE_IN_QUOTED_FIELD f0 fs0)"
      by (simp add: parse_process_char_def)
    have b: "parse_process_char (Reader QUOTE_IN_QUOTED_FIELD f0 fs0) (CHR 0x22)
          = Inr (Reader IN_QUOTED_FIELD (f0 @ [CHR 0x22]) fs0)"
      using Cons.prems True by (simp add: ppc_quote_quote)
    show ?thesis
      using True Cons.IH[OF l] by (simp add: a b line_ends_quote)
  next
    case False
    have a: "parse_process_char (Reader IN_QUOTED_FIELD f0 fs0) c
          = Inr (Reader IN_QUOTED_FIELD (f0 @ [c]) fs0)"
      using Cons.prems False by (simp add: ppc_in_quoted)
    show ?thesis
      using False Cons.IH[OF l] by (simp add: a eol_in_quoted Let_def)
  qed
qed

lemma plain_char:
  "\<not> needs_quotes (c # s) \<Longrightarrow> c \<noteq> CHR '','' \<and> c \<noteq> CHR 0x22 \<and> \<not> is_newline c \<and> \<not> needs_quotes s"
  by (auto simp: needs_quotes_def)

lemma line_ends_plain: "\<not> is_newline c \<Longrightarrow> \<not> line_ends c cs"
  by (auto simp: line_ends_def is_newline_def)

lemma ppc_in_field_plain:
  "c \<noteq> CHR '','' \<Longrightarrow> \<not> is_newline c \<Longrightarrow> field_len (f @ c # s) \<le> field_size_limit \<Longrightarrow>
   parse_process_char (Reader IN_FIELD f fs) c = Inr (Reader IN_FIELD (f @ [c]) fs)"
  by (simp add: parse_process_char_def add_char_fits)

lemma ppc_start_plain:
  "st = START_RECORD \<or> st = START_FIELD \<Longrightarrow>
   c \<noteq> CHR '','' \<Longrightarrow> c \<noteq> CHR 0x22 \<Longrightarrow> \<not> is_newline c \<Longrightarrow>
   field_len (f @ c # s) \<le> field_size_limit \<Longrightarrow>
   parse_process_char (Reader st f fs) c = Inr (Reader IN_FIELD (f @ [c]) fs)"
  by (auto simp: parse_process_char_def start_field_def add_char_fits)

lemma feed_plain:
  "\<not> needs_quotes s \<Longrightarrow> field_len (f0 @ s) \<le> field_size_limit \<Longrightarrow>
   feed (Reader IN_FIELD f0 fs0) pend (s @ rest)
     = feed (Reader IN_FIELD (f0 @ s) fs0) (pend \<or> s \<noteq> []) rest"
proof (induction s arbitrary: f0 pend)
  case Nil
  then show ?case by simp
next
  case (Cons c s)
  note p = plain_char[OF Cons.prems(1)]
  have l: "field_len ((f0 @ [c]) @ s) \<le> field_size_limit"
    using Cons.prems(2) by simp
  have a: "parse_process_char (Reader IN_FIELD f0 fs0) c = Inr (Reader IN_FIELD (f0 @ [c]) fs0)"
    using p Cons.prems(2) by (simp add: ppc_in_field_plain)
  show ?case
    using p Cons.IH[OF _ l, of True] by (simp add: a line_ends_plain)
qed

lemma feed_start_plain:
  assumes "st = START_RECORD \<or> st = START_FIELD" "\<not> needs_quotes s" "s \<noteq> []"
    and "field_len s \<le> field_size_limit"
  shows "feed (Reader st [] fs0) pend (s @ rest) = feed (Reader IN_FIELD s fs0) True rest"
proof -
  obtain c s' where s: "s = c # s'" using assms(3) by (cases s) auto
  note p = plain_char[OF assms(2)[unfolded s]]
  have a: "parse_process_char (Reader st [] fs0) c = Inr (Reader IN_FIELD [c] fs0)"
    using ppc_start_plain[OF assms(1), of c "[]" s' fs0] p assms(4) s by simp
  have l: "field_len ([c] @ s') \<le> field_size_limit"
    using assms(4) s by simp
  show ?thesis
    using p feed_plain[OF _ l, of fs0 True rest] by (simp add: s a line_ends_plain)
qed

lemma feed_start_quoted:
  assumes "st = START_RECORD \<or> st = START_FIELD" "field_len s \<le> field_size_limit"
  shows "feed (Reader st [] fs0) pend (CHR 0x22 # escape_quotes s @ CHR 0x22 # rest)
           = feed (Reader QUOTE_IN_QUOTED_FIELD s fs0) True rest"
proof -
  have a: "parse_process_char (Reader st [] fs0) (CHR 0x22) = Inr (Reader IN_QUOTED_FIELD [] fs0)"
    using assms(1) by (auto simp: parse_process_char_def start_field_def is_newline_def)
  show ?thesis
    using feed_quoted[of "[]" s fs0 True rest] assms(2) by (simp add: a line_ends_quote)
qed

lemma feed_delimiter:
  "st = START_RECORD \<or> st = START_FIELD \<or> st = IN_FIELD \<or> st = QUOTE_IN_QUOTED_FIELD \<Longrightarrow>
   feed (Reader st f fs0) pend (CHR '','' # rest) = feed (Reader START_FIELD [] (fs0 @ [f])) True rest"
  by (auto simp: parse_process_char_def start_field_def parse_save_field_def is_newline_def
                 line_ends_def)

lemma feed_crlf:
  "st = START_FIELD \<or> st = IN_FIELD \<or> st = QUOTE_IN_QUOTED_FIELD \<Longrightarrow>
   feed (Reader st f fs0) pend (CHR 0x0D # CHR 0x0A # rest)
     = (case feed parse_reset False rest of Inl e \<Rightarrow> Inl e | Inr rs \<Rightarrow> Inr ((fs0 @ [f]) # rs))"
  by (auto simp: parse_process_char_def start_field_def parse_save_field_def is_newline_def
                 line_ends_def parse_process_eol_def Let_def split: sum.splits)

lemma feed_crlf_blank:
  "feed (Reader START_RECORD [] []) pend (CHR 0x0D # CHR 0x0A # rest)
     = (case feed parse_reset False rest of Inl e \<Rightarrow> Inl e | Inr rs \<Rightarrow> Inr ([] # rs))"
  by (simp add: parse_process_char_def is_newline_def line_ends_def parse_process_eol_def Let_def
           split: sum.splits)

lemma feed_field_delimiter:
  assumes "st = START_RECORD \<or> st = START_FIELD" "field_len f \<le> field_size_limit"
  shows "feed (Reader st [] fs0) pend (join_append f @ CHR '','' # rest)
           = feed (Reader START_FIELD [] (fs0 @ [f])) True rest"
proof (cases "needs_quotes f")
  case True
  then show ?thesis
    by (simp add: join_append_def feed_start_quoted[OF assms] feed_delimiter del: feed.simps)
next
  case nq: False
  show ?thesis
  proof (cases "f = []")
    case True
    have d: "feed (Reader st [] fs0) pend (CHR '','' # rest)
               = feed (Reader START_FIELD [] (fs0 @ [[]])) True rest"
      using assms(1) by (intro feed_delimiter) auto
    show ?thesis
      using True nq by (simp add: join_append_def d del: feed.simps)
  next
    case False
    then show ?thesis
      using nq
      by (simp add: join_append_def feed_start_plain[OF assms(1) nq False assms(2)] feed_delimiter
               del: feed.simps)
  qed
qed

lemma feed_field_crlf:
  assumes "st = START_FIELD \<or> (st = START_RECORD \<and> f \<noteq> [])" "field_len f \<le> field_size_limit"
  shows "feed (Reader st [] fs0) pend (join_append f @ CHR 0x0D # CHR 0x0A # rest)
           = (case feed parse_reset False rest of
                Inl e \<Rightarrow> Inl e
              | Inr rs \<Rightarrow> Inr ((fs0 @ [f]) # rs))"
proof -
  have st: "st = START_RECORD \<or> st = START_FIELD" using assms(1) by auto
  show ?thesis
  proof (cases "needs_quotes f")
    case True
    then show ?thesis
      by (simp add: join_append_def feed_start_quoted[OF st assms(2)] feed_crlf del: feed.simps)
  next
    case nq: False
    show ?thesis
    proof (cases "f = []")
      case True
      have st': "st = START_FIELD" using assms(1) True by auto
      show ?thesis
        using True nq st' by (simp add: join_append_def feed_crlf del: feed.simps split: sum.splits)
    next
      case False
      then show ?thesis
        using nq
        by (simp add: join_append_def feed_start_plain[OF st nq False assms(2)] feed_crlf
                 del: feed.simps)
    qed
  qed
qed

lemma feed_join_fields:
  assumes "gs \<noteq> []" "list_all (\<lambda>f. field_len f \<le> field_size_limit) gs"
    and "st = START_FIELD \<or> (st = START_RECORD \<and> gs \<noteq> [[]])"
  shows "feed (Reader st [] fs0) pend (join_fields gs @ CHR 0x0D # CHR 0x0A # rest)
           = (case feed parse_reset False rest of
                Inl e \<Rightarrow> Inl e
              | Inr rs \<Rightarrow> Inr ((fs0 @ gs) # rs))"
  using assms
proof (induction gs arbitrary: st fs0 pend rule: join_fields.induct)
  case 1
  then show ?case by simp
next
  case (2 f)
  have a: "st = START_FIELD \<or> (st = START_RECORD \<and> f \<noteq> [])" using 2(3) by auto
  have l: "field_len f \<le> field_size_limit" using 2(2) by simp
  show ?case
    by (simp add: feed_field_crlf[OF a l] del: feed.simps)
next
  case (3 f g gs)
  have st: "st = START_RECORD \<or> st = START_FIELD" using 3(4) by auto
  have lf: "field_len f \<le> field_size_limit" using 3(3) by simp
  have ih: "feed (Reader START_FIELD [] (fs0 @ [f])) True
               (join_fields (g # gs) @ CHR 0x0D # CHR 0x0A # rest)
             = (case feed parse_reset False rest of
                  Inl e \<Rightarrow> Inl e
                | Inr rs \<Rightarrow> Inr (((fs0 @ [f]) @ g # gs) # rs))"
    using 3(3) by (intro 3(1)) simp_all
  have "feed (Reader st [] fs0) pend (join_fields (f # g # gs) @ CHR 0x0D # CHR 0x0A # rest)
          = feed (Reader START_FIELD [] (fs0 @ [f])) True
               (join_fields (g # gs) @ CHR 0x0D # CHR 0x0A # rest)"
    using feed_field_delimiter[OF st lf, of fs0 pend
            "join_fields (g # gs) @ CHR 0x0D # CHR 0x0A # rest"]
    by (simp del: feed.simps)
  then show ?case
    by (simp only: ih append_assoc append_Cons append_Nil)
qed

lemma feed_writerow:
  assumes "list_all (\<lambda>f. field_len f \<le> field_size_limit) fs"
  shows "feed parse_reset pend (writerow fs @ rest)
           = (case feed parse_reset False rest of
                Inl e \<Rightarrow> Inl e
              | Inr rs \<Rightarrow> Inr (fs # rs))"
proof (cases "fs = [[]]")
  case True
  have "feed (Reader START_RECORD [] []) pend
          (CHR 0x22 # escape_quotes [] @ CHR 0x22 # CHR 0x0D # CHR 0x0A # rest)
        = feed (Reader QUOTE_IN_QUOTED_FIELD [] []) True (CHR 0x0D # CHR 0x0A # rest)"
    by (rule feed_start_quoted) (simp_all add: field_len_Nil field_size_limit_def)
  then show ?thesis
    using True
    by (simp add: writerow_def lineterminator_def parse_reset_def feed_crlf del: feed.simps
             split: sum.splits)
next
  case False
  show ?thesis
  proof (cases "fs = []")
    case True
    then show ?thesis
      by (simp add: writerow_def lineterminator_def parse_reset_def feed_crlf_blank
               del: feed.simps split: sum.splits)
  next
    case ne: False
    have a: "START_RECORD = START_FIELD \<or> (START_RECORD = START_RECORD \<and> fs \<noteq> [[]])"
      using False by simp
    show ?thesis
      using False
      by (simp add: writerow_def lineterminator_def parse_reset_def
                    feed_join_fields[OF ne assms a, of "[]"] del: feed.simps split: sum.splits)
  qed
qed

lemma feed_csv_text:
  assumes "list_all (list_all (\<lambda>f. field_len f \<le> field_size_limit)) rs"
  shows "feed parse_reset False (csv_text rs @ rest)
           = (case feed parse_reset False rest of
                Inl e \<Rightarrow> Inl e
              | Inr rs' \<Rightarrow> Inr (rs @ rs'))"
  using assms
proof (induction rs)
  case Nil
  then show ?case by (simp add: csv_text_def split: sum.splits)
next
  case (Cons r rs)
  have r: "list_all (\<lambda>f. field_len f \<le> field_size_limit) r" using Cons.prems by simp
  show ?case
    using Cons
    by (simp add: csv_text_Cons feed_writerow[OF r] del: feed.simps split: sum.splits)
qed

lemma csv_parse_feed: "csv_parse t = feed parse_reset False t"
  by (simp add: csv_parse_def lines_feed)

lemma csv_parse_csv_text:
  assumes "list_all (list_all (\<lambda>f. field_len f \<le> field_size_limit)) rs"
  shows "csv_parse (csv_text rs) = Inr rs"
  using feed_csv_text[OF assms, of "[]"]
  by (simp add: csv_parse_feed flush_def parse_reset_def)

section \<open>Files that can be read\<close>

lemma valid_utf8_ascii: "list_all (\<lambda>c. byte c < 128) s \<Longrightarrow> valid_utf8 s"
  by (induction s) simp_all

lemma valid_utf8_append: "valid_utf8 a \<Longrightarrow> valid_utf8 (a @ b) = valid_utf8 b"
proof (induction a rule: valid_utf8.induct)
  case 1
  then show ?case by simp
next
  case (2 a bs)
  show ?case
  proof (cases "byte a < 128")
    case True
    then show ?thesis using 2 by simp
  next
    case n1: False
    show ?thesis
    proof (cases "194 \<le> byte a \<and> byte a < 224")
      case True
      then obtain b1 r where bs: "bs = b1 # r" and v: "is_continuation b1" "valid_utf8 r"
        using 2(5) n1 by (cases bs) auto
      have "valid_utf8 (r @ b) = valid_utf8 b"
        using 2(2)[OF n1 True bs v(2)] .
      then show ?thesis using n1 True bs v by simp
    next
      case n2: False
      show ?thesis
      proof (cases "224 \<le> byte a \<and> byte a < 240")
        case True
        then obtain b1 c1 r where bs: "bs = b1 # c1 # r"
          and v: "second_of_three a b1" "is_continuation c1" "valid_utf8 r"
          using 2(5) n1 n2 by (auto split: list.splits)
        have "valid_utf8 (r @ b) = valid_utf8 b"
          using 2(3)[OF n1 n2 True bs refl v(3)] .
        then show ?thesis using n1 n2 True bs v by simp
      next
        case n3: False
        show ?thesis
        proof (cases "240 \<le> byte a \<and> byte a < 245")
          case True
          then obtain b1 c1 d1 r where bs: "bs = b1 # c1 # d1 # r"
            and v: "second_of_four a b1" "is_continuation c1" "is_continuation d1" "valid_utf8 r"
            using 2(5) n1 n2 n3 by (auto split: list.splits)
          have "valid_utf8 (r @ b) = valid_utf8 b"
            using 2(4)[OF n1 n2 n3 True bs refl refl v(4)] .
          then show ?thesis using n1 n2 n3 True bs v by simp
        next
          case n4: False
          have "\<not> valid_utf8 (a # bs)"
            using n1 n2 n3 n4 by auto
          then show ?thesis using 2(5) by (elim notE)
        qed
      qed
    qed
  qed
qed

lemma ppc_error: "parse_process_char r c = Inl e \<Longrightarrow> e = ReadError"
  by (cases "state r")
     (auto simp: parse_process_char_def start_field_def parse_add_char_def split: if_splits)

lemma parse_line_error: "parse_line r l = Inl e \<Longrightarrow> e = ReadError"
  by (induction l arbitrary: r) (auto split: sum.splits dest: ppc_error)

lemma reader_rows_error: "reader_rows r ls = Inl e \<Longrightarrow> e = ReadError"
  by (induction ls arbitrary: r) (auto split: sum.splits if_splits dest: parse_line_error)

lemma csv_parse_error: "csv_parse t = Inl e \<Longrightarrow> e = ReadError"
  unfolding csv_parse_def by (rule reader_rows_error)

lemma dict_reader_readable: "readable t \<Longrightarrow> dict_reader t = Inr (file_records t)"
  by (auto simp: readable_def dict_reader_def file_records_def header_row_def csv_rows_def
                 data_rows_def split: sum.splits list.splits)

lemma read_csv_eq:
  "read_csv columns f =
     (if readable (fst (ensure_csv columns f))
      then Inr (fst (ensure_csv columns f), snd (ensure_csv columns f),
                file_records (fst (ensure_csv columns f)))
      else Inl ReadError)"
proof -
  obtain t lg where e: "ensure_csv columns f = (t, lg)"
    by (cases "ensure_csv columns f")
  show ?thesis
  proof (cases "readable t")
    case True
    then show ?thesis
      using dict_reader_readable[OF True] by (simp add: read_csv_def e readable_def)
  next
    case nr: False
    show ?thesis
    proof (cases "valid_utf8 t")
      case True
      then obtain e' where "csv_parse t = Inl e'"
        using nr by (auto simp: readable_def split: sum.splits)
      then have "csv_parse t = Inl ReadError"
        using csv_parse_error by blast
      then have "dict_reader t = Inl ReadError"
        by (simp add: dict_reader_def)
      then show ?thesis
        using nr True by (simp add: read_csv_def e)
    next
      case False
      then show ?thesis
        using nr by (simp add: read_csv_def e)
    qed
  qed
qed

lemma read_csv_existing:
  "read_csv columns (Some t) = (if readable t then Inr (t, [], file_records t) else Inl ReadError)"
  by (simp add: read_csv_eq ensure_csv_def)

lemma field_len_le_length: "field_len s \<le> int (length s)"
  by (simp add: field_len_def)

lemma short_fields_fit:
  "list_all (list_all (\<lambda>f. int (length f) \<le> field_size_limit)) rs \<Longrightarrow>
   list_all (list_all (\<lambda>f. field_len f \<le> field_size_limit)) rs"
  by (auto simp: list_all_iff intro: order_trans[OF field_len_le_length])

lemma readable_csv_text:
  assumes "valid_utf8 (csv_text rs)"
    and "list_all (list_all (\<lambda>f. field_len f \<le> field_size_limit)) rs"
  shows "readable (csv_text rs)" and "csv_rows (csv_text rs) = rs"
  using assms by (simp_all add: readable_def csv_rows_def csv_parse_csv_text)

lemma not_continuation_a: "\<not> is_continuation (CHR ''a'')"
  by (simp add: is_continuation_def byte_def)

lemma field_len_replicate_a: "field_len (replicate n (CHR ''a'')) = int n"
  by (induction n) (simp_all add: field_len_Cons field_len_Nil not_continuation_a)

lemma plain_replicate_a: "\<not> needs_quotes (replicate n (CHR ''a''))"
  by (auto simp: needs_quotes_def is_newline_def)

lemma feed_oversize:
  assumes "st = START_RECORD \<or> st = START_FIELD"
  shows "feed (Reader st [] fs0) pend (oversize_field @ rest) = Inl ReadError"
proof -
  let ?s = "replicate (nat field_size_limit) (CHR ''a'')"
  have ne: "?s \<noteq> []" by (simp add: field_size_limit_def)
  have len: "field_len ?s = field_size_limit"
    by (simp add: field_len_replicate_a field_size_limit_def)
  have a: "feed (Reader st [] fs0) pend (?s @ CHR ''a'' # rest)
             = feed (Reader IN_FIELD ?s fs0) True (CHR ''a'' # rest)"
    using len by (intro feed_start_plain[OF assms plain_replicate_a ne]) simp
  have b: "parse_process_char (Reader IN_FIELD ?s fs0) (CHR ''a'') = Inl ReadError"
    using len by (simp add: parse_process_char_def parse_add_char_def not_continuation_a
                       is_newline_def)
  show ?thesis
    unfolding oversize_field_def using a b by (simp del: feed.simps) (simp)
qed

lemma csv_parse_oversize:
  assumes "list_all (list_all (\<lambda>f. field_len f \<le> field_size_limit)) rs"
  shows "csv_parse (csv_text rs @ oversize_field @ rest) = Inl ReadError"
proof -
  have "feed parse_reset False (oversize_field @ rest) = Inl ReadError"
    using feed_oversize[of START_RECORD "[]" False rest]
    by (simp add: parse_reset_def del: feed.simps)
  then show ?thesis
    by (simp add: csv_parse_feed feed_csv_text[OF assms] del: feed.simps)
qed

lemma plain_oversize: "\<not> needs_quotes oversize_field"
  by (auto simp: needs_quotes_def is_newline_def oversize_field_def)

lemma writerow_oversize:
  "writerow (oversize_field # g # gs) = oversize_field @ CHR '','' # join_fields (g # gs) @ lineterminator"
  by (simp add: writerow_def join_append_def plain_oversize)

lemma example_columns_fit:
  "list_all (list_all (\<lambda>f. field_len f \<le> field_size_limit)) [example_columns]"
  "list_all (list_all (\<lambda>f. field_len f \<le> field_size_limit)) [example_sent_columns]"
  by (rule short_fields_fit, simp add: example_columns_def example_sent_columns_def field_size_limit_def)+

lemma oversize_unreadable: "\<not> readable oversize_jobs" "\<not> readable oversize_sent"
  by (simp_all add: readable_def oversize_jobs_def oversize_sent_def writerow_oversize
                    csv_parse_oversize[OF example_columns_fit(1)]
                    csv_parse_oversize[OF example_columns_fit(2)] del: join_fields.simps)

lemma example_jobs_ascii: "list_all (\<lambda>c. byte c < 128) example_jobs"
  by code_simp

lemma example_stale_jobs_ascii: "list_all (\<lambda>c. byte c < 128) example_stale_jobs"
  by code_simp

lemma example_sent_ascii: "list_all (\<lambda>c. byte c < 128) example_sent"
  by code_simp

lemma example_jobs_readable:
  "readable example_jobs"
  "csv_rows example_jobs =
     [example_columns, [''Dev'', ''2'', ''Pending'', [], []],
      [''Ops'', ''3'', ''Sent'', [], ''hr@example.org'']]"
proof -
  have v: "valid_utf8 example_jobs"
    by (rule valid_utf8_ascii) (rule example_jobs_ascii)
  have f: "list_all (list_all (\<lambda>f. field_len f \<le> field_size_limit))
             [example_columns, [''Dev'', ''2'', ''Pending'', [], []],
              [''Ops'', ''3'', ''Sent'', [], ''hr@example.org'']]"
    by (rule short_fields_fit) (simp add: example_columns_def field_size_limit_def)
  show "readable example_jobs"
    using readable_csv_text(1)[OF v[unfolded example_jobs_def] f] by (simp add: example_jobs_def)
  show "csv_rows example_jobs =
     [example_columns, [''Dev'', ''2'', ''Pending'', [], []],
      [''Ops'', ''3'', ''Sent'', [], ''hr@example.org'']]"
    using readable_csv_text(2)[OF v[unfolded example_jobs_def] f] by (simp add: example_jobs_def)
qed

lemma example_stale_jobs_readable: "readable example_stale_jobs"
proof -
  have v: "valid_utf8 example_stale_jobs"
    by (rule valid_utf8_ascii) (rule example_stale_jobs_ascii)
  have f: "list_all (list_all (\<lambda>f. field_len f \<le> field_size_limit))
             [example_columns, [''Dev'', ''7'', ''Pending'', [], []],
              [''Ops'', ''3'', ''Sent'', [], ''hr@example.org''],
              [''QA'', [], ''Pending'', [], []]]"
    by (rule short_fields_fit) (simp add: example_columns_def field_size_limit_def)
  show ?thesis
    using readable_csv_text(1)[OF v[unfolded example_stale_jobs_def] f]
    by (simp add: example_stale_jobs_def)
qed

lemma example_sent_readable: "readable example_sent"
proof -
  have v: "valid_utf8 example_sent"
    by (rule valid_utf8_ascii) (rule example_sent_ascii)
  have f: "list_all (list_all (\<lambda>f. field_len f \<le> field_size_limit))
             [example_sent_columns, [''a@example.org'', ''2024-01-02''],
              [''b@example.org'', ''2024-01-02T09:00:00''],
              [''c@example.org'', ''2024-01-01''], [''d@example.org'', []]]"
    by (rule short_fields_fit) (simp add: example_sent_columns_def field_size_limit_def)
  show ?thesis
    using readable_csv_text(1)[OF v[unfolded example_sent_def] f]
    by (simp add: example_sent_def)
qed

section \<open>Updating a job row that is not there\<close>

lemma length_file_records: "length (file_records t) = length (data_rows t)"
  by (simp add: file_records_def)

text \<open>
  C3, as the code has it. On an existing job file that can be read (UTF-8 text in which
  no field is longer than the reader's limit), when the data index \<open>row_number - 2\<close> is
  negative or not below the number of data rows, \<^verbatim>\<open>update_scraped_job_status\<close>
  returns normally, leaves the bytes of the file as they were, and logs one warning. On
  a file that cannot be read the call raises, whatever the row number.
\<close>

theorem update_out_of_range:
  "(readable t \<and> (row_number - 2 < 0 \<or> int (length (data_rows t)) \<le> row_number - 2) \<longrightarrow>
      update_scraped_job_status columns row_number email_sent skip_reason email_recipient (Some t)
        = Inr (t, [WARNING]))
   \<and> (\<not> readable t \<longrightarrow>
      update_scraped_job_status columns row_number email_sent skip_reason email_recipient (Some t)
        = Inl ReadError)"
  by (auto simp: update_scraped_job_status_def ensure_csv_def read_csv_existing
                 length_file_records)

theorem update_unreadable_counterexample:
  "update_scraped_job_status example_columns 1 ''Sent'' [] [] (Some oversize_jobs) = Inl ReadError"
  by (simp add: update_scraped_job_status_def ensure_csv_def read_csv_existing
                oversize_unreadable)

theorem update_out_of_range_witness:
  "readable example_jobs
   \<and> (999 - 2 < (0::int) \<or> int (length (data_rows example_jobs)) \<le> 999 - 2)
   \<and> update_scraped_job_status example_columns 999 ''Sent'' [] ''a@b.c'' (Some example_jobs)
       = Inr (example_jobs, [WARNING])
   \<and> \<not> readable oversize_jobs
   \<and> update_scraped_job_status example_columns 2 ''Sent'' [] ''a@b.c'' (Some oversize_jobs)
       = Inl ReadError"
proof -
  have h: "999 - 2 < (0::int) \<or> int (length (data_rows example_jobs)) \<le> 999 - 2"
    by (simp add: data_rows_def example_jobs_readable)
  show ?thesis
    using h example_jobs_readable(1) oversize_unreadable(1)
      update_out_of_range[of example_jobs 999 example_columns "''Sent''" "[]" "''a@b.c''"]
      update_out_of_range[of oversize_jobs 2 example_columns "''Sent''" "[]" "''a@b.c''"]
    by blast
qed

section \<open>Counting the emails sent today\<close>

lemma count_today_filter:
  "count_today s c rs = c + int (length (filter (sent_today s) rs))"
  by (induction rs arbitrary: c) simp_all

lemma isoformat_not_empty: "isoformat d \<noteq> []"
  by (simp add: isoformat_def)

lemma sent_today_starts_with:
  "s \<noteq> [] \<Longrightarrow> sent_today s d = date_sent_starts_with s d"
  by (auto simp: sent_today_def date_sent_starts_with_def dict_get_def
           split: option.splits pyval.splits)

text \<open>
  C6, as the code has it. On a sent-email file that can be read,
  \<^verbatim>\<open>get_today_sent_emails_count\<close> returns the number of records of the file whose
  \<^verbatim>\<open>date_sent\<close> is a string with the ISO text of today's date as a prefix. The
  comparison is on the strings: a record whose \<^verbatim>\<open>date_sent\<close> is empty, missing or
  \<^verbatim>\<open>None\<close>, or does not start with that text, is not counted. On a file that cannot
  be read the call raises. On the file with the dates \<^verbatim>\<open>2024-01-02\<close>,
  \<^verbatim>\<open>2024-01-02T09:00:00\<close>, \<^verbatim>\<open>2024-01-01\<close> and the empty string, the count on
  2 January 2024 is 2.
\<close>

theorem today_count_prefix:
  "(readable t \<longrightarrow>
      get_today_sent_emails_count columns today (Some t)
        = Inr (t, [], int (length (filter (date_sent_starts_with (isoformat today))
                                     (file_records t)))))
   \<and> (\<not> readable t \<longrightarrow> get_today_sent_emails_count columns today (Some t) = Inl ReadError)"
proof -
  have "sent_today (isoformat today) = date_sent_starts_with (isoformat today)"
    by (rule ext) (simp add: sent_today_starts_with isoformat_not_empty)
  then show ?thesis
    by (simp add: get_today_sent_emails_count_def read_csv_existing count_today_filter)
qed

theorem today_count_unreadable_counterexample:
  "get_today_sent_emails_count example_sent_columns (Date 2024 1 2) (Some oversize_sent)
     = Inl ReadError"
  by (simp add: get_today_sent_emails_count_def read_csv_existing oversize_unreadable)

lemma example_sent_count:
  "get_today_sent_emails_count example_sent_columns (Date 2024 1 2) (Some example_sent)
     = Inr (example_sent, [], 2)"
  by code_simp

theorem today_count_prefix_witness:
  "readable example_sent
   \<and> isoformat (Date 2024 1 2) = ''2024-01-02''
   \<and> int (length (filter (date_sent_starts_with ''2024-01-02'') (file_records example_sent))) = 2"
proof -
  have iso: "isoformat (Date 2024 1 2) = ''2024-01-02''"
    by code_simp
  have c: "get_today_sent_emails_count example_sent_columns (Date 2024 1 2) (Some example_sent)
          = Inr (example_sent, [],
                 int (length (filter (date_sent_starts_with (isoformat (Date 2024 1 2)))
                                (file_records example_sent))))"
    using today_count_prefix[of example_sent example_sent_columns "Date 2024 1 2"]
      example_sent_readable by blast
  from c[unfolded example_sent_count iso]
  have "int (length (filter (date_sent_starts_with ''2024-01-02'') (file_records example_sent))) = 2"
    by simp
  then show ?thesis using example_sent_readable iso by blast
qed

section \<open>The pending jobs\<close>

lemma pending_from_filter:
  "pending_from k rows =
     map (\<lambda>i. dict_set (rows ! i) ''row_number'' (Str (py_str (k + int i + 2))))
         (filter (\<lambda>i. is_pending (rows ! i)) [0..<length rows])"
proof (induction rows arbitrary: k)
  case Nil
  then show ?case by simp
next
  case (Cons job jobs)
  have p: "(dict_get job ''email_sent'' (Str []) = Str ''Pending'') = is_pending job"
    by (auto simp: dict_get_def is_pending_def split: option.splits)
  have u: "[0..<length (job # jobs)] = 0 # map Suc [0..<length jobs]"
    by (simp add: upt_conv_Cons map_Suc_upt del: upt_Suc)
  show ?case
    unfolding u
    by (simp add: p Cons.IH[of "k + 1"] filter_map comp_def add.assoc del: upt_Suc)
qed

text \<open>
  C4, as the code has it. On a job file that can be read, \<^verbatim>\<open>get_pending_jobs\<close>
  returns the records of the file whose \<^verbatim>\<open>email_sent\<close> is the string \<^verbatim>\<open>Pending\<close>, all
  of them and no other, in the order of the file; the record at the zero-based position
  \<open>i\<close> among the data rows is returned with its \<^verbatim>\<open>row_number\<close> set to the decimal text
  of \<open>i + 2\<close>, whatever the file stored there. On a file that cannot be read the call
  raises and returns nothing.
\<close>

theorem pending_jobs_recomputed:
  "(readable t \<longrightarrow>
      get_pending_jobs columns (Some t)
        = Inr (t, [],
               map (\<lambda>i. dict_set (file_records t ! i) ''row_number'' (Str (py_str (int i + 2))))
                   (filter (\<lambda>i. is_pending (file_records t ! i)) [0..<length (file_records t)])))
   \<and> (\<not> readable t \<longrightarrow> get_pending_jobs columns (Some t) = Inl ReadError)"
  by (simp add: get_pending_jobs_def read_csv_existing pending_from_filter)

theorem pending_jobs_unreadable_counterexample:
  "get_pending_jobs example_columns (Some oversize_jobs) = Inl ReadError"
  by (simp add: get_pending_jobs_def read_csv_existing oversize_unreadable)

lemma example_stale_pending:
  "(case get_pending_jobs example_columns (Some example_stale_jobs) of
      Inl e \<Rightarrow> []
    | Inr (t, lg, jobs) \<Rightarrow>
        map (\<lambda>d. (dict_get d ''title'' PyNone, dict_get d ''row_number'' PyNone)) jobs)
   = [(Str ''Dev'', Str ''2''), (Str ''QA'', Str ''4'')]"
  by code_simp

theorem pending_jobs_recomputed_witness:
  "readable example_stale_jobs
   \<and> map (\<lambda>d. (dict_get d ''title'' PyNone, dict_get d ''row_number'' PyNone))
       (map (\<lambda>i. dict_set (file_records example_stale_jobs ! i) ''row_number''
                    (Str (py_str (int i + 2))))
            (filter (\<lambda>i. is_pending (file_records example_stale_jobs ! i))
                    [0..<length (file_records example_stale_jobs)]))
     = [(Str ''Dev'', Str ''2''), (Str ''QA'', Str ''4'')]"
proof -
  have g: "get_pending_jobs example_columns (Some example_stale_jobs)
        = Inr (example_stale_jobs, [],
               map (\<lambda>i. dict_set (file_records example_stale_jobs ! i) ''row_number''
                           (Str (py_str (int i + 2))))
                   (filter (\<lambda>i. is_pending (file_records example_stale_jobs ! i))
                           [0..<length (file_records example_stale_jobs)]))"
    using pending_jobs_recomputed[of example_stale_jobs example_columns]
      example_stale_jobs_readable by blast
  show ?thesis
    using example_stale_jobs_readable example_stale_pending[unfolded g] by simp
qed

section \<open>Adding scraped jobs\<close>









section \<open>Records and rows\<close>

lemma zip_pad:
  "zip h (map Str r) @ map (\<lambda>k. (k, PyNone)) (drop (length r) h)
     = zip h (map Str (take (length h) r) @ replicate (length h - length r) PyNone)"
proof (induction h arbitrary: r)
  case Nil
  then show ?case by simp
next
  case (Cons a h)
  show ?case
  proof (cases r)
    case Nil
    have "map (\<lambda>k. (k, PyNone)) h = zip h (replicate (length h) PyNone)"
      by (induction h) simp_all
    then show ?thesis using Nil by simp
  next
    case (Cons b r')
    then show ?thesis using Cons.IH[of r'] by simp
  qed
qed

lemma map_of_rev_distinct:
  "distinct (map fst xs) \<Longrightarrow> map_of (rev xs) = map_of xs"
  by (subst map_of_inject_set) (simp_all add: rev_map[symmetric])

lemma cells_dict_row_nth:
  assumes "distinct h" "i < length h"
  shows "cells (dict_row h r) (h ! i) = Some (if i < length r then Str (r ! i) else PyNone)"
proof -
  let ?vals = "map Str (take (length h) r) @ replicate (length h - length r) PyNone"
  have len: "length ?vals = length h" by simp
  have d: "distinct (map fst (zip h ?vals))"
    using assms(1) len by (simp add: map_fst_zip del: length_append length_map length_replicate)
  have "cells (dict_row h r) (h ! i) = map_of (zip h ?vals) (h ! i)"
    by (simp only: dict_row_def pydict.sel py_dict_def zip_pad map_of_rev_distinct[OF d])
  also have "\<dots> = Some (?vals ! i)"
    using assms len by (intro map_of_zip_nth) simp_all
  also have "?vals ! i = (if i < length r then Str (r ! i) else PyNone)"
    using assms(2) by (auto simp: nth_append)
  finally show ?thesis .
qed


lemma restkey_dict_row:
  "restkey (dict_row h r) = (if length h < length r then Some (drop (length h) r) else None)"
  by (simp add: dict_row_def)

lemma written_fields_nth:
  "k < length columns \<Longrightarrow>
   written_fields columns d ! k = field_text (dict_get d (columns ! k) (Str []))"
  by (simp add: written_fields_def dict_to_list_def)

lemma length_written_fields: "length (written_fields columns d) = length columns"
  by (simp add: written_fields_def dict_to_list_def)

lemma written_fields_dict_row:
  assumes "distinct h" "k < length h"
  shows "written_fields h (dict_row h r) ! k = (if k < length r then r ! k else [])"
  using assms
  by (simp add: written_fields_nth dict_get_def cells_dict_row_nth field_text_def)

lemma cells_dict_row_written:
  "cells (dict_row columns (written_fields columns d)) k
     = (if k \<in> set columns then Some (Str (field_text (dict_get d k (Str [])))) else None)"
proof -
  have "written_fields columns d = map (\<lambda>k. field_text (dict_get d k (Str []))) columns"
    by (simp add: written_fields_def dict_to_list_def)
  then have "cells (dict_row columns (written_fields columns d)) k
               = py_dict (zip columns (map (\<lambda>k. Str (field_text (dict_get d k (Str [])))) columns)) k"
    by (simp add: dict_row_def comp_def)
  then show ?thesis by (simp add: py_dict_self)
qed

section \<open>Updating a job row\<close>

lemma rows_setitem_in_range:
  "0 \<le> i \<Longrightarrow> i < int (length rows) \<Longrightarrow>
   rows_setitem rows i k v = Inr (rows[nat i := dict_set (rows ! nat i) k v])"
  by (simp add: rows_setitem_def list_index_def)

lemma update_in_range:
  assumes "readable t" "0 \<le> row_number - 2" "row_number - 2 < int (length (data_rows t))"
  shows "update_scraped_job_status columns row_number email_sent skip_reason email_recipient (Some t)
    = Inr (writeheader columns
             @ dict_writerows columns
                 ((file_records t)[nat (row_number - 2) :=
                    dict_set (dict_set (dict_set (file_records t ! nat (row_number - 2))
                       ''email_sent'' (Str email_sent))
                       ''skip_reason'' (Str skip_reason))
                       ''email_recipient'' (Str email_recipient)]),
           [DEBUG])"
proof -
  have n: "nat (row_number - 2) < length (file_records t)"
    using assms(2,3) by (simp add: length_file_records)
  show ?thesis
    using assms n
    by (simp add: update_scraped_job_status_def ensure_csv_def read_csv_existing
                  length_file_records rows_setitem_in_range Let_def)
qed

lemma header_only_rows:
  assumes "valid_utf8 (writeheader columns)"
    and "list_all (\<lambda>c. field_len c \<le> field_size_limit) columns"
  shows "readable (writeheader columns)" and "csv_rows (writeheader columns) = [columns]"
    and "file_records (writeheader columns) = []"
proof -
  have t: "writeheader columns = csv_text [columns]"
    by (simp add: writeheader_writerow csv_text_def)
  have f: "list_all (list_all (\<lambda>f. field_len f \<le> field_size_limit)) [columns]"
    using assms(2) by simp
  show r: "readable (writeheader columns)"
    using readable_csv_text(1)[OF assms(1)[unfolded t] f] by (simp add: t)
  show c: "csv_rows (writeheader columns) = [columns]"
    using readable_csv_text(2)[OF assms(1)[unfolded t] f] by (simp add: t)
  show "file_records (writeheader columns) = []"
    by (simp add: file_records_def data_rows_def c)
qed

text \<open>
  C10. When the job file does not exist, \<^verbatim>\<open>update_scraped_job_status\<close> creates it
  with the header only, finds no data row in it, so that every index is out of range,
  logs the creation and the warning, changes no row and returns normally, whatever the
  row number. The schema's field names are taken to be UTF-8 text within the reader's
  field size limit, so that the header just written can be read back.
\<close>

theorem update_missing_file:
  assumes "valid_utf8 (writeheader columns)"
    and "list_all (\<lambda>c. field_len c \<le> field_size_limit) columns"
  shows "update_scraped_job_status columns row_number email_sent skip_reason email_recipient None
           = Inr (writeheader columns, [INFO, WARNING])
         \<and> csv_rows (writeheader columns) = [columns]
         \<and> data_rows (writeheader columns) = []"
  using header_only_rows[OF assms]
  by (auto simp add: update_scraped_job_status_def ensure_csv_def read_csv_existing data_rows_def
                Let_def)

lemma example_header_ascii: "list_all (\<lambda>c. byte c < 128) (writeheader example_columns)"
  by code_simp

theorem update_missing_file_witness:
  "valid_utf8 (writeheader example_columns)
   \<and> list_all (\<lambda>c. field_len c \<le> field_size_limit) example_columns
   \<and> update_scraped_job_status example_columns 2 ''Sent'' [] ''hr@example.org'' None
       = Inr (writeheader example_columns, [INFO, WARNING])
   \<and> update_scraped_job_status example_columns (- 5) ''Sent'' [] ''hr@example.org'' None
       = Inr (writeheader example_columns, [INFO, WARNING])"
proof -
  have v: "valid_utf8 (writeheader example_columns)"
    by (rule valid_utf8_ascii) (rule example_header_ascii)
  have f: "list_all (\<lambda>c. field_len c \<le> field_size_limit) example_columns"
    using example_columns_fit(1) by simp
  show ?thesis
    using v f update_missing_file[OF v f, of 2 "''Sent''" "[]" "''hr@example.org''"]
      update_missing_file[OF v f, of "- 5" "''Sent''" "[]" "''hr@example.org''"]
    by blast
qed

section \<open>Updating a job row that is there\<close>

lemma update_in_range_text:
  assumes "readable t" "0 \<le> row_number - 2" "row_number - 2 < int (length (data_rows t))"
  shows "update_scraped_job_status columns row_number email_sent skip_reason email_recipient (Some t)
    = Inr (csv_text (columns #
             (map (written_fields columns) (file_records t))
               [nat (row_number - 2) :=
                  written_fields columns
                    (dict_set (dict_set (dict_set (file_records t ! nat (row_number - 2))
                       ''email_sent'' (Str email_sent))
                       ''skip_reason'' (Str skip_reason))
                       ''email_recipient'' (Str email_recipient))]),
           [DEBUG])"
  by (simp add: update_in_range[OF assms] writeheader_writerow dict_writerows_text csv_text_Cons
                map_update)

lemma written_fields_restkey:
  "written_fields columns (Dict (cells d) rest) = written_fields columns d"
  by (simp add: written_fields_def dict_to_list_def dict_get_def)

lemma example_ragged_ascii: "list_all (\<lambda>c. byte c < 128) example_ragged_jobs"
  by code_simp

lemma example_ragged_readable:
  "readable example_ragged_jobs"
  "csv_rows example_ragged_jobs =
     [example_columns,
      [''Dev'', ''2'', ''Pending'', [], [], ''extra1'', ''extra2''],
      [''Ops'', ''3'', ''Pending'', [], []]]"
proof -
  have v: "valid_utf8 example_ragged_jobs"
    by (rule valid_utf8_ascii) (rule example_ragged_ascii)
  have f: "list_all (list_all (\<lambda>f. field_len f \<le> field_size_limit))
             [example_columns,
              [''Dev'', ''2'', ''Pending'', [], [], ''extra1'', ''extra2''],
              [''Ops'', ''3'', ''Pending'', [], []]]"
    by (rule short_fields_fit) (simp add: example_columns_def field_size_limit_def)
  show "readable example_ragged_jobs"
    using readable_csv_text(1)[OF v[unfolded example_ragged_jobs_def] f]
    by (simp add: example_ragged_jobs_def)
  show "csv_rows example_ragged_jobs =
     [example_columns,
      [''Dev'', ''2'', ''Pending'', [], [], ''extra1'', ''extra2''],
      [''Ops'', ''3'', ''Pending'', [], []]]"
    using readable_csv_text(2)[OF v[unfolded example_ragged_jobs_def] f]
    by (simp add: example_ragged_jobs_def)
qed

lemma example_ragged_rewritten:
  "(map (written_fields example_columns) (file_records example_ragged_jobs))
     [nat (3 - 2) :=
        written_fields example_columns
          (dict_set (dict_set (dict_set (file_records example_ragged_jobs ! nat (3 - 2))
             ''email_sent'' (Str ''Sent''))
             ''skip_reason'' (Str []))
             ''email_recipient'' (Str ''hr@example.org''))]
   = [[''Dev'', ''2'', ''Pending'', [], []], [''Ops'', ''3'', ''Sent'', [], ''hr@example.org'']]"
  by code_simp

lemma example_ragged_restkey:
  "restkey (file_records example_ragged_jobs ! 0) = Some [''extra1'', ''extra2'']"
  by code_simp

text \<open>
  C9. On a job file that can be read, an update whose data index \<open>row_number - 2\<close> is in
  range rewrites the file as the header of the schema followed by one row for each
  record of the file, in order. Every row written has exactly one field for each column
  of the schema, whatever the record held under the reader's rest key: the excess fields
  of a long row are not written, for the row addressed and for every other row. The row
  of a record that is not addressed holds the values that the record had in the schema's
  columns; only the row addressed gets the three new status values.
\<close>

theorem update_writes_schema_columns_only:
  assumes "readable t"
    and "0 \<le> row_number - 2"
    and "row_number - 2 < int (length (data_rows t))"
  shows "update_scraped_job_status columns row_number email_sent skip_reason email_recipient
           (Some t)
         = Inr (csv_text (columns #
                  (map (written_fields columns) (file_records t))
                    [nat (row_number - 2) :=
                       written_fields columns
                         (dict_set (dict_set (dict_set (file_records t ! nat (row_number - 2))
                            ''email_sent'' (Str email_sent))
                            ''skip_reason'' (Str skip_reason))
                            ''email_recipient'' (Str email_recipient))]),
                [DEBUG])
         \<and> list_all (\<lambda>d. length (written_fields columns d) = length columns
                         \<and> written_fields columns (Dict (cells d) None) = written_fields columns d)
                    (file_records t)
         \<and> length (written_fields columns
                     (dict_set (dict_set (dict_set (file_records t ! nat (row_number - 2))
                        ''email_sent'' (Str email_sent))
                        ''skip_reason'' (Str skip_reason))
                        ''email_recipient'' (Str email_recipient)))
           = length columns"
  by (simp add: update_in_range_text[OF assms] length_written_fields written_fields_restkey
                list_all_iff)

theorem update_writes_schema_columns_only_witness:
  "readable example_ragged_jobs
   \<and> 0 \<le> (3::int) - 2
   \<and> (3::int) - 2 < int (length (data_rows example_ragged_jobs))
   \<and> restkey (file_records example_ragged_jobs ! 0) = Some [''extra1'', ''extra2'']
   \<and> update_scraped_job_status example_columns 3 ''Sent'' [] ''hr@example.org''
       (Some example_ragged_jobs)
     = Inr (csv_text [example_columns,
                      [''Dev'', ''2'', ''Pending'', [], []],
                      [''Ops'', ''3'', ''Sent'', [], ''hr@example.org'']],
            [DEBUG])"
proof -
  have r: "readable example_ragged_jobs" by (rule example_ragged_readable(1))
  have lo: "0 \<le> (3::int) - 2" by simp
  have hi: "(3::int) - 2 < int (length (data_rows example_ragged_jobs))"
    by (simp add: data_rows_def example_ragged_readable(2))
  have u: "update_scraped_job_status example_columns 3 ''Sent'' [] ''hr@example.org''
             (Some example_ragged_jobs)
           = Inr (csv_text [example_columns,
                            [''Dev'', ''2'', ''Pending'', [], []],
                            [''Ops'', ''3'', ''Sent'', [], ''hr@example.org'']],
                  [DEBUG])"
    using update_writes_schema_columns_only[OF r lo hi, of example_columns "''Sent''" "[]"
            "''hr@example.org''", THEN conjunct1]
    by (simp only: example_ragged_rewritten)
  show ?thesis
    using r lo hi example_ragged_restkey u by blast
qed

section \<open>The rows an update leaves alone\<close>

lemma written_fields_schema:
  assumes "distinct h"
  shows "written_fields h (dict_row h r) = schema_fields h r"
proof (rule nth_equalityI)
  show "length (written_fields h (dict_row h r)) = length (schema_fields h r)"
    by (simp add: length_written_fields schema_fields_def)
next
  fix k assume "k < length (written_fields h (dict_row h r))"
  then have k: "k < length h" by (simp add: length_written_fields)
  then show "written_fields h (dict_row h r) ! k = schema_fields h r ! k"
    by (simp add: written_fields_dict_row[OF assms k] schema_fields_def nth_append)
qed

lemma length_schema_fields: "length (schema_fields h r) = length h"
  by (simp add: schema_fields_def)

lemma written_fields_status:
  assumes "distinct h"
  shows "written_fields h
           (dict_set (dict_set (dict_set (dict_row h r)
              ''email_sent'' (Str es)) ''skip_reason'' (Str sr)) ''email_recipient'' (Str er))
         = status_fields h r es sr er"
proof (rule nth_equalityI)
  show "length (written_fields h
           (dict_set (dict_set (dict_set (dict_row h r)
              ''email_sent'' (Str es)) ''skip_reason'' (Str sr)) ''email_recipient'' (Str er)))
        = length (status_fields h r es sr er)"
    by (simp add: length_written_fields status_fields_def length_schema_fields)
next
  fix k
  assume "k < length (written_fields h
           (dict_set (dict_set (dict_set (dict_row h r)
              ''email_sent'' (Str es)) ''skip_reason'' (Str sr)) ''email_recipient'' (Str er)))"
  then have k: "k < length h" by (simp add: length_written_fields)
  have s: "schema_fields h r ! k = written_fields h (dict_row h r) ! k"
    by (simp add: written_fields_schema[OF assms])
  show "written_fields h
           (dict_set (dict_set (dict_set (dict_row h r)
              ''email_sent'' (Str es)) ''skip_reason'' (Str sr)) ''email_recipient'' (Str er)) ! k
        = status_fields h r es sr er ! k"
    using k
    by (simp add: status_fields_def length_schema_fields s written_fields_nth dict_get_def
                  dict_set_def field_text_def)
qed


text \<open>
  C2, as the code has it. The update rewrites the file from the records the reader made
  of it, with the header of the schema. On a job file that can be read and whose header
  row is the schema (column names pairwise different), with the data index
  \<open>row_number - 2\<close> in range, the new file is the same header followed by one row for
  each data row, in the order of the file; each row holds the row's values in the
  schema's columns (the empty string where the row was short, without the fields it had
  beyond the schema), and the row at the data index has in addition the three status
  columns set to the new values. A long row that is not addressed loses its excess
  fields, and under another header every row is rewritten.
\<close>

theorem update_in_range_frame:
  assumes "readable t"
    and "header_row t = columns"
    and "distinct columns"
    and "0 \<le> row_number - 2"
    and "row_number - 2 < int (length (data_rows t))"
  shows "update_scraped_job_status columns row_number email_sent skip_reason email_recipient
           (Some t)
         = Inr (csv_text (columns #
                  (map (schema_fields columns) (data_rows t))
                    [nat (row_number - 2) :=
                       status_fields columns (data_rows t ! nat (row_number - 2))
                         email_sent skip_reason email_recipient]),
                [DEBUG])"
proof -
  have n: "nat (row_number - 2) < length (data_rows t)"
    using assms(4,5) by simp
  have m: "map (written_fields columns) (file_records t) = map (schema_fields columns) (data_rows t)"
    by (simp add: file_records_def assms(2) written_fields_schema[OF assms(3)] comp_def)
  have i: "file_records t ! nat (row_number - 2) = dict_row columns (data_rows t ! nat (row_number - 2))"
    using n by (simp add: file_records_def assms(2))
  show ?thesis
    by (simp only: update_in_range_text[OF assms(1,4,5)] m i written_fields_status[OF assms(3)])
qed

theorem update_in_range_frame_counterexample:
  "data_rows example_ragged_jobs ! 0 = [''Dev'', ''2'', ''Pending'', [], [], ''extra1'', ''extra2'']
   \<and> header_row example_ragged_jobs = example_columns
   \<and> update_scraped_job_status example_columns 3 ''Sent'' [] ''hr@example.org''
       (Some example_ragged_jobs)
     = Inr (csv_text [example_columns,
                      [''Dev'', ''2'', ''Pending'', [], []],
                      [''Ops'', ''3'', ''Sent'', [], ''hr@example.org'']],
            [DEBUG])
   \<and> header_row example_foreign_jobs = [''title'', ''email_sent'']
   \<and> data_rows example_foreign_jobs = [[''Dev'', ''Pending''], [''Ops'', ''Pending'']]
   \<and> update_scraped_job_status example_columns 3 ''Sent'' [] ''hr@example.org''
       (Some example_foreign_jobs)
     = Inr (csv_text [example_columns,
                      [''Dev'', [], ''Pending'', [], []],
                      [''Ops'', [], ''Sent'', [], ''hr@example.org'']],
            [DEBUG])"
  by code_simp

lemma example_jobs_updated:
  "(map (schema_fields example_columns) (data_rows example_jobs))
     [nat (2 - 2) := status_fields example_columns (data_rows example_jobs ! nat (2 - 2))
                       ''Sent'' [] ''hr@example.org'']
   = [[''Dev'', ''2'', ''Sent'', [], ''hr@example.org''],
      [''Ops'', ''3'', ''Sent'', [], ''hr@example.org'']]"
  by (simp add: data_rows_def example_jobs_readable(2) schema_fields_def status_fields_def
                example_columns_def)

theorem update_in_range_frame_witness:
  "readable example_jobs
   \<and> header_row example_jobs = example_columns
   \<and> distinct example_columns
   \<and> 0 \<le> (2::int) - 2
   \<and> (2::int) - 2 < int (length (data_rows example_jobs))
   \<and> update_scraped_job_status example_columns 2 ''Sent'' [] ''hr@example.org''
       (Some example_jobs)
     = Inr (csv_text [example_columns,
                      [''Dev'', ''2'', ''Sent'', [], ''hr@example.org''],
                      [''Ops'', ''3'', ''Sent'', [], ''hr@example.org'']],
            [DEBUG])"
proof -
  have r: "readable example_jobs" by (rule example_jobs_readable(1))
  have h: "header_row example_jobs = example_columns"
    by (simp add: header_row_def example_jobs_readable(2))
  have d: "distinct example_columns" by (simp add: example_columns_def)
  have lo: "0 \<le> (2::int) - 2" by simp
  have hi: "(2::int) - 2 < int (length (data_rows example_jobs))"
    by (simp add: data_rows_def example_jobs_readable(2))
  have u: "update_scraped_job_status example_columns 2 ''Sent'' [] ''hr@example.org''
             (Some example_jobs)
           = Inr (csv_text [example_columns,
                            [''Dev'', ''2'', ''Sent'', [], ''hr@example.org''],
                            [''Ops'', ''3'', ''Sent'', [], ''hr@example.org'']],
                  [DEBUG])"
    using update_in_range_frame[OF r h d lo hi, of "''Sent''" "[]" "''hr@example.org''"]
    by (simp only: example_jobs_updated)
  show ?thesis
    using r h d lo hi u by blast
qed

section \<open>The keys of the records read\<close>


lemma file_records_nth:
  "j < length (data_rows t) \<Longrightarrow> file_records t ! j = dict_row (header_row t) (data_rows t ! j)"
  by (simp add: file_records_def)






end
